theory Spec2Isabelle
  imports Complex_Main "HOL-Library.Sublist" "HOL-Library.AList"
begin

section \<open>Values, strings and the environment\<close>

text \<open>
  The server of \<^verbatim>\<open>src/unnamed/part_000\<close> (class SubfractureWebSocketServer) and the
  serverless routes of \<^verbatim>\<open>src/unnamed/part_002\<close> read JSON request bodies. A scalar field
  of a body can hold any JSON value, and the code relies on JavaScript's truthiness
  (\<^verbatim>\<open>a || b\<close>), strict equality (\<^verbatim>\<open>===\<close>) and optional chaining, so scalar fields are
  modelled as JSON values. A field that is absent from the body is \<open>JUndefined\<close>.
  Array fields (signals, contradictions, gaps) are modelled as optional lists: \<open>None\<close> is
  an absent field, and an array holds objects. Numbers are modelled as reals: no claim
  below depends on rounding. A string is the list of the bytes of its UTF-8 form: on
  well-formed strings, equality and \<open>includes\<close> on the bytes agree with JavaScript's.
\<close>

datatype jsval =
    JUndefined
  | JNull
  | JBool bool
  | JNum real
  | JStr string
  | JArr "jsval list"
  | JObj "(string \<times> jsval) list"

text \<open>Truthiness, as \<^verbatim>\<open>||\<close> and \<^verbatim>\<open>!\<close> read it.\<close>

fun truthy :: "jsval \<Rightarrow> bool" where
  "truthy JUndefined = False"
| "truthy JNull = False"
| "truthy (JBool b) = b"
| "truthy (JNum x) = (x \<noteq> 0)"
| "truthy (JStr s) = (s \<noteq> [])"
| "truthy (JArr xs) = True"
| "truthy (JObj kvs) = True"

text \<open>\<^verbatim>\<open>a || b\<close>\<close>

definition js_or :: "jsval \<Rightarrow> jsval \<Rightarrow> jsval" where
  "js_or a b = (if truthy a then a else b)"

text \<open>
  \<^verbatim>\<open>a === b\<close> on values parsed from two different places: primitives compare by value,
  and two objects or arrays are never the same object.
\<close>

fun strict_eq :: "jsval \<Rightarrow> jsval \<Rightarrow> bool" where
  "strict_eq (JArr xs) b = False"
| "strict_eq (JObj kvs) b = False"
| "strict_eq a b = (a = b)"

text \<open>
  \<^verbatim>\<open>String.prototype.toLowerCase\<close> follows the Unicode case mapping, a table of the
  runtime. On a string of ASCII characters it lowers the letters A to Z and nothing else.
  What it returns for a string with other characters (the Kelvin sign, for one, becomes
  the letter k) is taken as a parameter, \<open>lc\<close>, of everything that lowers a string.
  \<^verbatim>\<open>String.prototype.includes\<close>: the argument occurs as a contiguous part.
\<close>

definition toLowerChar :: "char \<Rightarrow> char" where
  "toLowerChar c =
     (case map_of (zip ''ABCDEFGHIJKLMNOPQRSTUVWXYZ'' ''abcdefghijklmnopqrstuvwxyz'') c of
        Some l \<Rightarrow> l
      | None \<Rightarrow> c)"

definition is_ascii :: "string \<Rightarrow> bool" where
  "is_ascii s = list_all (\<lambda>c. \<not> digit7 c) s"

definition toLowerCase :: "(string \<Rightarrow> string) \<Rightarrow> string \<Rightarrow> string" where
  "toLowerCase lc s = (if is_ascii s then map toLowerChar s else lc s)"

text \<open>
  What a template literal does to a value it embeds (\<open>ToString\<close>), as far as it can
  raise on parsed JSON: an object with an own \<open>toString\<close> property (never callable here)
  has no way to a primitive, and an array joins the strings of its elements, \<open>null\<close>
  apart.
\<close>

fun toString_raises :: "jsval \<Rightarrow> bool" where
  "toString_raises (JObj kvs) = (''toString'' \<in> set (map fst kvs))"
| "toString_raises (JArr xs) = list_ex toString_raises xs"
| "toString_raises v = False"

definition includes_str :: "string \<Rightarrow> string \<Rightarrow> bool" where
  "includes_str s searchString = sublist searchString s"

text \<open>
  Dates are milliseconds, and every handler reads the clock once: the \<open>now\<close> it is given
  stands for each \<^verbatim>\<open>new Date()\<close> of one handler run. \<^verbatim>\<open>uuidv4()\<close> is an outside source of
  identifiers: the model takes the generator as a function from the number of the draw
  to the identifier drawn, and the server state counts the draws made so far.
\<close>

type_synonym time = nat
type_synonym uuid = string

datatype error = TypeError

section \<open>The session of the WebSocket server\<close>

record dimension =
  name :: string
  depth :: real
  coherence :: real
  color :: nat
  viscosity :: real
  refraction :: real
  signalStrength :: jsval
  lastUpdated :: time

record connection =
  conn_from :: string
  conn_to :: string
  strength :: real
  conn_type :: string
  active :: bool

text \<open>
  An entry of \<open>contradictions\<close> is \<^verbatim>\<open>{...c, id: uuidv4(), detected: new Date()}\<close>: the
  submitted object \<open>c\<close> with the keys \<open>id\<close> and \<open>detected\<close> set last, so they win over keys
  of the same name in \<open>c\<close>. An entry of \<open>gaps\<close> is stamped with \<open>identified\<close> instead.
\<close>

record contradiction =
  c_fields :: jsval
  c_id :: uuid
  detected :: time

record gap =
  g_fields :: jsval
  g_id :: uuid
  identified :: time

text \<open>
  \<open>cognitiveState\<close>: at creation it has the three numbers only; the handler adds
  \<open>lastUpdate\<close> and \<open>context\<close> (here \<open>cs_context\<close>).
\<close>

record cognitive =
  analytical :: jsval
  intuitive :: jsval
  efficiency :: jsval
  lastUpdate :: "time option"
  cs_context :: jsval

record metrics =
  m_coherence :: real
  evolution_rate :: string
  signal_strength :: real

record session =
  session_id :: string
  createdAt :: time
  dimensions :: "dimension list"
  connections :: "connection list"
  contradictions :: "contradiction list"
  gaps :: "gap list"
  cognitiveState :: cognitive
  metrics :: metrics

definition generateInitialDimensions :: "time \<Rightarrow> dimension list" where
  "generateInitialDimensions now =
    [ \<lparr> name = ''market_position'', depth = 0.85, coherence = 0.92, color = 0x2196F3,
        viscosity = 0.8, refraction = 1.52, signalStrength = JNum 0.85, lastUpdated = now \<rparr>,
      \<lparr> name = ''value_proposition'', depth = 0.78, coherence = 0.88, color = 0x4CAF50,
        viscosity = 0.75, refraction = 1.48, signalStrength = JNum 0.78, lastUpdated = now \<rparr>,
      \<lparr> name = ''brand_narrative'', depth = 0.82, coherence = 0.75, color = 0xFF9800,
        viscosity = 0.9, refraction = 1.54, signalStrength = JNum 0.82, lastUpdated = now \<rparr>,
      \<lparr> name = ''emotional_landscape'', depth = 0.90, coherence = 0.85, color = 0xE91E63,
        viscosity = 0.95, refraction = 1.55, signalStrength = JNum 0.90, lastUpdated = now \<rparr>,
      \<lparr> name = ''visual_identity'', depth = 0.75, coherence = 0.95, color = 0x9C27B0,
        viscosity = 0.7, refraction = 1.49, signalStrength = JNum 0.75, lastUpdated = now \<rparr>,
      \<lparr> name = ''digital_presence'', depth = 0.88, coherence = 0.78, color = 0x607D8B,
        viscosity = 0.8, refraction = 1.51, signalStrength = JNum 0.88, lastUpdated = now \<rparr>,
      \<lparr> name = ''innovation_capacity'', depth = 0.92, coherence = 0.88, color = 0xFF5722,
        viscosity = 0.85, refraction = 1.53, signalStrength = JNum 0.92, lastUpdated = now \<rparr> ]"

definition generateInitialConnections :: "connection list" where
  "generateInitialConnections =
    [ \<lparr> conn_from = ''market_position'', conn_to = ''value_proposition'', strength = 0.9,
        conn_type = ''strategic'', active = True \<rparr>,
      \<lparr> conn_from = ''brand_narrative'', conn_to = ''emotional_landscape'', strength = 0.85,
        conn_type = ''experiential'', active = True \<rparr>,
      \<lparr> conn_from = ''visual_identity'', conn_to = ''digital_presence'', strength = 0.8,
        conn_type = ''implementation'', active = True \<rparr> ]"


section \<open>Connections, messages and the server state\<close>

text \<open>
  A client record holds its socket. Of the socket the server reads \<open>readyState\<close> and calls
  \<open>send\<close>, which may raise: \<open>send_throws\<close> says whether it does for this socket (the
  transport decides). \<open>brandId\<close> is \<open>null\<close> until the client joins a brand. The fields
  \<open>userAgent\<close> and \<open>ip\<close> are never read and are left out.
\<close>

record socket =
  readyState :: nat
  send_throws :: bool

text \<open>\<^verbatim>\<open>WebSocket.OPEN\<close>\<close>

definition OPEN :: nat where
  "OPEN = 1"

record client =
  client_id :: uuid
  ws :: socket
  connectedAt :: time
  brandId :: jsval

text \<open>The dialogue object the server broadcasts: it has no id.\<close>

record dialogue =
  speaker :: jsval
  message :: jsval
  messageType :: jsval
  timestamp :: time

text \<open>
  The messages the server sends, one constructor per \<open>type\<close> tag: \<open>welcome\<close>,
  \<open>brand_state\<close>, \<open>workshop_update\<close> (with the three counts of \<open>updates\<close> and \<open>newState\<close>),
  \<open>cognitive_update\<close> and \<open>dialogue_message\<close>.
\<close>

datatype msg =
    Welcome uuid
  | BrandState jsval session
  | WorkshopUpdate jsval nat nat nat session
  | CognitiveUpdate jsval cognitive
  | DialogueMessage jsval dialogue

text \<open>
  What a handler run does to the outside: a frame handed to a client's socket, or a
  \<open>send\<close> that raised (caught and logged by \<open>sendToClient\<close>).
\<close>

datatype event = Sent uuid msg | SendFailed uuid

datatype response = Ok200 | BadRequest400 | ServerError500

text \<open>
  The server: \<open>clients\<close> is a JavaScript Map that is iterated, so its insertion order is
  kept (an association list; \<open>AList.update\<close> is \<open>Map.set\<close>, \<open>AList.delete\<close> is
  \<open>Map.delete\<close>). \<open>brandSessions\<close> is only read and written by key. Session objects are
  shared by reference in the source; the model writes a changed session back under the
  key it was found or created under. \<open>uuidCalls\<close> counts the draws from \<open>uuidv4\<close>.
\<close>

record server =
  clients :: "(uuid \<times> client) list"
  brandSessions :: "string \<rightharpoonup> session"
  uuidCalls :: nat

text \<open>
  \<open>createBrandSession\<close>: \<^verbatim>\<open>brandId.substring(0, 8)\<close> raises a TypeError unless \<open>brandId\<close> is
  a string, before anything is stored. The session's \<open>name\<close>, a label made of the first
  characters of the id, is never read by the server and is left out.
\<close>

definition createBrandSession :: "server \<Rightarrow> jsval \<Rightarrow> time \<Rightarrow> error + (string \<times> session \<times> server)" where
  "createBrandSession st b now =
     (case b of
        JStr k \<Rightarrow>
          let session =
            \<lparr> session_id = k,
              createdAt = now,
              dimensions = generateInitialDimensions now,
              connections = generateInitialConnections,
              contradictions = [],
              gaps = [],
              cognitiveState =
                \<lparr> analytical = JNum 0.7, intuitive = JNum 0.7, efficiency = JNum 0.75,
                  lastUpdate = None, cs_context = JUndefined \<rparr>,
              metrics =
                \<lparr> m_coherence = 0.84, evolution_rate = ''moderate'', signal_strength = 0.78 \<rparr> \<rparr>
          in Inr (k, session, st\<lparr>brandSessions := (brandSessions st)(k \<mapsto> session)\<rparr>)
      | _ \<Rightarrow> Inl TypeError)"

text \<open>
  \<^verbatim>\<open>this.brandSessions.get(brandId)\<close>: only string keys are ever stored, so a lookup
  under any other value finds nothing.
\<close>

definition sessions_get :: "server \<Rightarrow> jsval \<Rightarrow> (string \<times> session) option" where
  "sessions_get st b =
     (case b of
        JStr k \<Rightarrow> (case brandSessions st k of Some s \<Rightarrow> Some (k, s) | None \<Rightarrow> None)
      | _ \<Rightarrow> None)"

text \<open>
  \<^verbatim>\<open>this.brandSessions.get(brandId) || this.createBrandSession(brandId)\<close>, the lookup
  that \<open>handleJoinBrand\<close>, \<open>handleWorkshopData\<close>, \<open>handleCognitiveState\<close> and
  \<open>getBrandState\<close> start with (a stored session is an object, hence truthy). The result
  carries the key the session is stored under.
\<close>

definition getOrCreate :: "server \<Rightarrow> jsval \<Rightarrow> time \<Rightarrow> error + (string \<times> session \<times> server)" where
  "getOrCreate st b now =
     (case sessions_get st b of
        Some (k, s) \<Rightarrow> Inr (k, s, st)
      | None \<Rightarrow> createBrandSession st b now)"

text \<open>\<^verbatim>\<open>GET /api/brand/:id/state\<close>: the route parameter is a string.\<close>

definition getBrandState :: "server \<Rightarrow> string \<Rightarrow> time \<Rightarrow> error + (session \<times> server)" where
  "getBrandState st k now =
     (case getOrCreate st (JStr k) now of
        Inl e \<Rightarrow> Inl e
      | Inr (k', brandSession, st') \<Rightarrow> Inr (brandSession, st'))"

subsection \<open>Sending and broadcasting\<close>

definition sendToClient :: "server \<Rightarrow> uuid \<Rightarrow> msg \<Rightarrow> event list \<times> server" where
  "sendToClient st clientId m =
     (case map_of (clients st) clientId of
        None \<Rightarrow> ([], st)
      | Some c \<Rightarrow>
          if readyState (ws c) = OPEN
          then (if send_throws (ws c) then ([SendFailed clientId], st) else ([Sent clientId m], st))
          else ([], st))"

text \<open>The \<open>forEach\<close> of \<open>broadcastToBrand\<close> over the entries of \<open>clients\<close>, in order.\<close>

fun broadcast_each :: "server \<Rightarrow> (uuid \<times> client) list \<Rightarrow> jsval \<Rightarrow> msg \<Rightarrow> event list \<times> server" where
  "broadcast_each st [] b m = ([], st)"
| "broadcast_each st ((clientId, c) # rest) b m =
     (if strict_eq (brandId c) b \<and> readyState (ws c) = OPEN
      then (let (ev1, st1) = sendToClient st clientId m;
                (ev2, st2) = broadcast_each st1 rest b m
            in (ev1 @ ev2, st2))
      else broadcast_each st rest b m)"

definition broadcastToBrand :: "server \<Rightarrow> jsval \<Rightarrow> msg \<Rightarrow> event list \<times> server" where
  "broadcastToBrand st b m = broadcast_each st (clients st) b m"

subsection \<open>Connection events and join\<close>

text \<open>
  A new connection draws its client id, is stored and greeted. \<open>sock\<close> is the socket the
  transport hands over.
\<close>

definition onConnection :: "(nat \<Rightarrow> uuid) \<Rightarrow> server \<Rightarrow> socket \<Rightarrow> time \<Rightarrow> uuid \<times> event list \<times> server" where
  "onConnection uuidv4 st sock now =
     (let clientId = uuidv4 (uuidCalls st);
          clientInfo = \<lparr> client_id = clientId, ws = sock, connectedAt = now, brandId = JNull \<rparr>;
          st1 = st\<lparr>clients := AList.update clientId clientInfo (clients st),
                   uuidCalls := Suc (uuidCalls st)\<rparr>;
          (evs, st2) = sendToClient st1 clientId (Welcome clientId)
      in (clientId, evs, st2))"

definition onClose :: "server \<Rightarrow> uuid \<Rightarrow> server" where
  "onClose st clientId = st\<lparr>clients := AList.delete clientId (clients st)\<rparr>"

text \<open>
  \<open>handleJoinBrand\<close>: the client's \<open>brandId\<close> is set first; a \<open>brandId\<close> that is not a string
  then makes \<open>createBrandSession\<close> raise (caught by the message handler), which the first
  component of the result reports.
\<close>

definition handleJoinBrand :: "server \<Rightarrow> uuid \<Rightarrow> jsval \<Rightarrow> time \<Rightarrow> error option \<times> event list \<times> server" where
  "handleJoinBrand st clientId b now =
     (case map_of (clients st) clientId of
        None \<Rightarrow> (None, [], st)
      | Some c \<Rightarrow>
          let st1 = st\<lparr>clients := AList.update clientId (c\<lparr>brandId := b\<rparr>) (clients st)\<rparr> in
          (case getOrCreate st1 b now of
             Inl e \<Rightarrow> (Some e, [], st1)
           | Inr (k, brandState, st2) \<Rightarrow>
               let (evs, st3) = sendToClient st2 clientId (BrandState b brandState)
               in (None, evs, st3)))"


section \<open>The HTTP handlers of the WebSocket server\<close>

subsection \<open>\<^verbatim>\<open>POST /api/workshop/process\<close>\<close>

record signal =
  category :: jsval
  confidence :: jsval

record workshop_body =
  w_brandId :: jsval
  w_signals :: "signal list option"
  w_contradictions :: "jsval list option"
  w_gaps :: "jsval list option"

text \<open>
  The argument of \<open>includes\<close> in the matching rule, \<^verbatim>\<open>signal.category?.toLowerCase()\<close>: a
  string is lowered; \<open>undefined\<close> and \<open>null\<close> give \<open>undefined\<close>, which \<open>includes\<close> reads as the
  string \<open>undefined\<close>; any other value has no \<open>toLowerCase\<close> and the call raises.
\<close>

fun lowered :: "(string \<Rightarrow> string) \<Rightarrow> jsval \<Rightarrow> error + string" where
  "lowered lc (JStr s) = Inr (toLowerCase lc s)"
| "lowered lc JUndefined = Inr ''undefined''"
| "lowered lc JNull = Inr ''undefined''"
| "lowered lc v = Inl TypeError"

text \<open>
  The predicate of \<open>find\<close>:
  \<^verbatim>\<open>d.name === signal.category || d.name.includes(signal.category?.toLowerCase())\<close>.
\<close>

definition matches :: "(string \<Rightarrow> string) \<Rightarrow> dimension \<Rightarrow> jsval \<Rightarrow> error + bool" where
  "matches lc d cat =
     (if strict_eq (JStr (name d)) cat then Inr True
      else (case lowered lc cat of
              Inl e \<Rightarrow> Inl e
            | Inr sub \<Rightarrow> Inr (includes_str (name d) sub)))"

text \<open>
  \<^verbatim>\<open>brandSession.dimensions.find(...)\<close>: the position of the first dimension, in the
  order of the list, on which the predicate holds. The source gets the object itself and
  changes it in place; the model gets its index.
\<close>

fun find_dimension :: "(string \<Rightarrow> string) \<Rightarrow> dimension list \<Rightarrow> jsval \<Rightarrow> error + nat option" where
  "find_dimension lc [] cat = Inr None"
| "find_dimension lc (d # ds) cat =
     (case matches lc d cat of
        Inl e \<Rightarrow> Inl e
      | Inr True \<Rightarrow> Inr (Some 0)
      | Inr False \<Rightarrow>
          (case find_dimension lc ds cat of
             Inl e \<Rightarrow> Inl e
           | Inr None \<Rightarrow> Inr None
           | Inr (Some i) \<Rightarrow> Inr (Some (Suc i))))"

definition updateDimension :: "dimension \<Rightarrow> signal \<Rightarrow> time \<Rightarrow> dimension" where
  "updateDimension d sig now =
     d\<lparr> signalStrength := confidence sig,
        coherence := min (coherence d + 0.05) 1.0,
        lastUpdated := now \<rparr>"

text \<open>
  \<^verbatim>\<open>signals.forEach(...)\<close>. A raise inside the loop ends it; what earlier signals changed
  stays changed, so the dimensions reached so far are returned with the error.
\<close>

fun process_signals :: "(string \<Rightarrow> string) \<Rightarrow> dimension list \<Rightarrow> signal list \<Rightarrow> time \<Rightarrow> dimension list \<times> error option" where
  "process_signals lc dims [] now = (dims, None)"
| "process_signals lc dims (sig # sigs) now =
     (case find_dimension lc dims (category sig) of
        Inl e \<Rightarrow> (dims, Some e)
      | Inr None \<Rightarrow> process_signals lc dims sigs now
      | Inr (Some i) \<Rightarrow>
          process_signals lc (dims[i := updateDimension (dims ! i) sig now]) sigs now)"

text \<open>
  \<^verbatim>\<open>contradictions.map(c => ({...c, id: uuidv4(), detected: new Date()}))\<close>, the draws
  numbered from \<open>n\<close>; and the same for gaps.
\<close>

fun stampContradictions :: "(nat \<Rightarrow> uuid) \<Rightarrow> nat \<Rightarrow> time \<Rightarrow> jsval list \<Rightarrow> contradiction list" where
  "stampContradictions uuidv4 n now [] = []"
| "stampContradictions uuidv4 n now (c # cs) =
     \<lparr> c_fields = c, c_id = uuidv4 n, detected = now \<rparr> # stampContradictions uuidv4 (Suc n) now cs"

fun stampGaps :: "(nat \<Rightarrow> uuid) \<Rightarrow> nat \<Rightarrow> time \<Rightarrow> jsval list \<Rightarrow> gap list" where
  "stampGaps uuidv4 n now [] = []"
| "stampGaps uuidv4 n now (g # gs) =
     \<lparr> g_fields = g, g_id = uuidv4 n, identified = now \<rparr> # stampGaps uuidv4 (Suc n) now gs"

text \<open>\<^verbatim>\<open>xs?.length || 0\<close> on an optional array.\<close>

definition length_or_0 :: "'a list option \<Rightarrow> nat" where
  "length_or_0 xs = (case xs of None \<Rightarrow> 0 | Some l \<Rightarrow> length l)"

text \<open>
  The three blocks of \<open>handleWorkshopData\<close>, each guarded by \<^verbatim>\<open>xs && xs.length > 0\<close>:
  the signals change the dimensions of the session, a non-empty list of contradictions
  replaces \<open>contradictions\<close>, a non-empty list of gaps replaces \<open>gaps\<close>. The last two
  take and return the number of draws from \<open>uuidv4\<close>.
\<close>

definition applySignals :: "(string \<Rightarrow> string) \<Rightarrow> session \<Rightarrow> signal list option \<Rightarrow> time \<Rightarrow> session \<times> error option" where
  "applySignals lc s signals now =
     (case signals of
        None \<Rightarrow> (s, None)
      | Some sigs \<Rightarrow>
          if sigs \<noteq> []
          then (let (dims, err) = process_signals lc (dimensions s) sigs now
                in (s\<lparr>dimensions := dims\<rparr>, err))
          else (s, None))"

definition replaceContradictions :: "(nat \<Rightarrow> uuid) \<Rightarrow> nat \<Rightarrow> session \<Rightarrow> jsval list option \<Rightarrow> time \<Rightarrow> session \<times> nat" where
  "replaceContradictions uuidv4 n s cs now =
     (case cs of
        None \<Rightarrow> (s, n)
      | Some l \<Rightarrow>
          if l \<noteq> []
          then (s\<lparr>contradictions := stampContradictions uuidv4 n now l\<rparr>, n + length l)
          else (s, n))"

definition replaceGaps :: "(nat \<Rightarrow> uuid) \<Rightarrow> nat \<Rightarrow> session \<Rightarrow> jsval list option \<Rightarrow> time \<Rightarrow> session \<times> nat" where
  "replaceGaps uuidv4 n s gs now =
     (case gs of
        None \<Rightarrow> (s, n)
      | Some l \<Rightarrow>
          if l \<noteq> []
          then (s\<lparr>gaps := stampGaps uuidv4 n now l\<rparr>, n + length l)
          else (s, n))"

text \<open>A session changed in place is seen under its key in \<open>brandSessions\<close>.\<close>

definition put_session :: "server \<Rightarrow> string \<Rightarrow> session \<Rightarrow> server" where
  "put_session st k s = st\<lparr>brandSessions := (brandSessions st)(k \<mapsto> s)\<rparr>"

text \<open>
  \<open>handleWorkshopData\<close>. Any raise inside the \<open>try\<close> is answered with status 500 and
  nothing is broadcast; the session keeps what was changed before the raise. (The log
  line at the start embeds \<open>brandId\<close> in a template literal, which can raise only for an
  object or an array; for those \<open>createBrandSession\<close> raises as well, with the same
  answer and the same state. The same holds for \<open>handleCognitiveState\<close>.)
\<close>

definition handleWorkshopData :: "(string \<Rightarrow> string) \<Rightarrow> (nat \<Rightarrow> uuid) \<Rightarrow> server \<Rightarrow> workshop_body \<Rightarrow> time \<Rightarrow> response \<times> event list \<times> server" where
  "handleWorkshopData lc uuidv4 st body now =
     (case getOrCreate st (w_brandId body) now of
        Inl e \<Rightarrow> (ServerError500, [], st)
      | Inr (k, brandSession, st1) \<Rightarrow>
          (case applySignals lc brandSession (w_signals body) now of
             (s1, Some e) \<Rightarrow> (ServerError500, [], put_session st1 k s1)
           | (s1, None) \<Rightarrow>
               let (s2, n2) = replaceContradictions uuidv4 (uuidCalls st1) s1 (w_contradictions body) now;
                   (s3, n3) = replaceGaps uuidv4 n2 s2 (w_gaps body) now;
                   st2 = (put_session st1 k s3)\<lparr>uuidCalls := n3\<rparr>;
                   (evs, st3) = broadcastToBrand st2 (w_brandId body)
                      (WorkshopUpdate (w_brandId body) (length_or_0 (w_signals body))
                         (length_or_0 (w_contradictions body)) (length_or_0 (w_gaps body)) s3)
               in (Ok200, evs, st3)))"

subsection \<open>\<^verbatim>\<open>POST /api/ai/cognitive-state\<close>\<close>

record cognitive_body =
  cb_brandId :: jsval
  cb_analytical :: jsval
  cb_intuitive :: jsval
  cb_efficiency :: jsval
  cb_context :: jsval

definition handleCognitiveState :: "server \<Rightarrow> cognitive_body \<Rightarrow> time \<Rightarrow> response \<times> event list \<times> server" where
  "handleCognitiveState st body now =
     (case getOrCreate st (cb_brandId body) now of
        Inl e \<Rightarrow> (ServerError500, [], st)
      | Inr (k, brandSession, st1) \<Rightarrow>
          let cs = \<lparr> analytical = js_or (cb_analytical body) (JNum 0.7),
                     intuitive = js_or (cb_intuitive body) (JNum 0.7),
                     efficiency = js_or (cb_efficiency body) (JNum 0.75),
                     lastUpdate = Some now,
                     cs_context = js_or (cb_context body) (JObj []) \<rparr>;
              st2 = put_session st1 k (brandSession\<lparr>cognitiveState := cs\<rparr>);
              (evs, st3) = broadcastToBrand st2 (cb_brandId body)
                             (CognitiveUpdate (cb_brandId body) cs)
          in (Ok200, evs, st3))"

subsection \<open>\<^verbatim>\<open>POST /api/refinement/dialogue\<close>\<close>

record dialogue_body =
  db_brandId :: jsval
  db_speaker :: jsval
  db_message :: jsval
  db_messageType :: jsval

text \<open>
  The handler looks no session up and stores nothing: it only broadcasts. Its log line,
  inside the \<open>try\<close>, embeds \<open>brandId\<close> and \<open>speaker\<close> in a template literal; when that raises,
  the answer is status 500 and nothing is broadcast.
\<close>

definition handleRefinementDialogue :: "server \<Rightarrow> dialogue_body \<Rightarrow> time \<Rightarrow> response \<times> event list \<times> server" where
  "handleRefinementDialogue st body now =
     (if toString_raises (db_brandId body) \<or> toString_raises (db_speaker body)
      then (ServerError500, [], st)
      else
        let (evs, st1) = broadcastToBrand st (db_brandId body)
              (DialogueMessage (db_brandId body)
                 \<lparr> speaker = db_speaker body,
                   message = db_message body,
                   messageType = js_or (db_messageType body) (JStr ''question''),
                   timestamp = now \<rparr>)
        in (Ok200, evs, st1))"

section \<open>The serverless routes\<close>

text \<open>
  \<^verbatim>\<open>src/unnamed/part_002\<close>, the second module (\<open>module.exports\<close>): every request builds a
  fresh session with its own \<open>createBrandSession\<close>, changes it and answers; nothing is
  kept between requests. The model returns the route's session as it stands when the
  route answers. Of the session the fields the two routes below touch are modelled
  (\<open>dimensions\<close>, \<open>contradictions\<close>, \<open>gaps\<close> and \<open>instructions\<close> are constant data there).
\<close>

record dialogueEntry =
  de_id :: uuid
  de_speaker :: jsval
  de_message :: jsval
  de_messageType :: jsval
  de_timestamp :: time

record api_session =
  api_brandId :: jsval
  api_created :: time
  api_lastUpdate :: time
  api_cognitiveState :: cognitive
  api_dialogue :: "dialogueEntry list"

definition api_createBrandSession :: "jsval \<Rightarrow> time \<Rightarrow> api_session" where
  "api_createBrandSession b now =
     \<lparr> api_brandId = b, api_created = now, api_lastUpdate = now,
       api_cognitiveState =
         \<lparr> analytical = JNum 0.5, intuitive = JNum 0.5, efficiency = JNum 0.7,
           lastUpdate = None, cs_context = JUndefined \<rparr>,
       api_dialogue = [] \<rparr>"

text \<open>\<^verbatim>\<open>POST /api/ai/cognitive-state\<close> of the serverless module.\<close>

definition api_cognitive_state :: "cognitive_body \<Rightarrow> time \<Rightarrow> response \<times> api_session option" where
  "api_cognitive_state body now =
     (if \<not> truthy (cb_brandId body) then (BadRequest400, None)
      else
        let session = api_createBrandSession (cb_brandId body) now;
            cs = \<lparr> analytical = js_or (cb_analytical body) (analytical (api_cognitiveState session)),
                   intuitive = js_or (cb_intuitive body) (intuitive (api_cognitiveState session)),
                   efficiency = js_or (cb_efficiency body) (efficiency (api_cognitiveState session)),
                   lastUpdate = None,
                   cs_context = js_or (cb_context body) (JObj []) \<rparr>
        in (Ok200, Some (session\<lparr>api_cognitiveState := cs, api_lastUpdate := now\<rparr>)))"

text \<open>
  \<^verbatim>\<open>POST /api/refinement/dialogue\<close> of the serverless module; \<open>n\<close> is the number of draws
  from \<open>uuidv4\<close> made before the request.
\<close>

definition api_dialogue_route :: "(nat \<Rightarrow> uuid) \<Rightarrow> nat \<Rightarrow> dialogue_body \<Rightarrow> time \<Rightarrow> response \<times> api_session option" where
  "api_dialogue_route uuidv4 n body now =
     (if \<not> truthy (db_brandId body) then (BadRequest400, None)
      else
        let session = api_createBrandSession (db_brandId body) now;
            dialogueEntry =
              \<lparr> de_id = uuidv4 n, de_speaker = db_speaker body, de_message = db_message body,
                de_messageType = db_messageType body, de_timestamp = now \<rparr>
        in (Ok200, Some (session\<lparr>api_dialogue := api_dialogue session @ [dialogueEntry],
                                 api_lastUpdate := now\<rparr>)))"


section \<open>Runs of the server\<close>

text \<open>
  What can happen to the server, one constructor per event: a connection, the close of
  a socket, a change of a socket's \<open>readyState\<close> made by the transport, a \<open>join_brand\<close>
  message, and the four HTTP routes. (The other message types of \<open>handleClientMessage\<close>
  call methods the class does not define; the raise is caught and nothing changes.)
  The server starts with no client and no session.
\<close>

datatype request =
    Connection socket
  | Close uuid
  | ReadyState uuid nat
  | JoinBrand uuid jsval
  | WorkshopProcess workshop_body
  | CognitiveStatePost cognitive_body
  | RefinementDialoguePost dialogue_body
  | BrandStateGet string

definition setReadyState :: "server \<Rightarrow> uuid \<Rightarrow> nat \<Rightarrow> server" where
  "setReadyState st clientId r =
     (case map_of (clients st) clientId of
        None \<Rightarrow> st
      | Some c \<Rightarrow>
          st\<lparr>clients := AList.update clientId (c\<lparr>ws := (ws c)\<lparr>readyState := r\<rparr>\<rparr>) (clients st)\<rparr>)"

fun step :: "(string \<Rightarrow> string) \<Rightarrow> (nat \<Rightarrow> uuid) \<Rightarrow> server \<Rightarrow> request \<times> time \<Rightarrow> server" where
  "step lc uuidv4 st (Connection sock, now) = snd (snd (onConnection uuidv4 st sock now))"
| "step lc uuidv4 st (Close clientId, now) = onClose st clientId"
| "step lc uuidv4 st (ReadyState clientId r, now) = setReadyState st clientId r"
| "step lc uuidv4 st (JoinBrand clientId b, now) = snd (snd (handleJoinBrand st clientId b now))"
| "step lc uuidv4 st (WorkshopProcess body, now) = snd (snd (handleWorkshopData lc uuidv4 st body now))"
| "step lc uuidv4 st (CognitiveStatePost body, now) = snd (snd (handleCognitiveState st body now))"
| "step lc uuidv4 st (RefinementDialoguePost body, now) = snd (snd (handleRefinementDialogue st body now))"
| "step lc uuidv4 st (BrandStateGet k, now) =
     (case getBrandState st k now of Inl e \<Rightarrow> st | Inr (s, st') \<Rightarrow> st')"

definition initial :: server where
  "initial = \<lparr> clients = [], brandSessions = Map.empty, uuidCalls = 0 \<rparr>"

definition run :: "(string \<Rightarrow> string) \<Rightarrow> (nat \<Rightarrow> uuid) \<Rightarrow> server \<Rightarrow> (request \<times> time) list \<Rightarrow> server" where
  "run lc uuidv4 st reqs = foldl (step lc uuidv4) st reqs"


section \<open>Invariants\<close>

text \<open>
  Two properties of a list of dimensions: every coherence is at most 1; the names are
  those of the default dimensions, in their order. \<open>sessions_all P\<close> says that the
  dimensions of every stored session have the property \<open>P\<close>.
\<close>

definition coherence_bounded :: "dimension list \<Rightarrow> bool" where
  "coherence_bounded dims = (\<forall>d \<in> set dims. coherence d \<le> 1)"


definition sessions_all :: "(dimension list \<Rightarrow> bool) \<Rightarrow> server \<Rightarrow> bool" where
  "sessions_all P st = (\<forall>k s. brandSessions st k = Some s \<longrightarrow> P (dimensions s))"


section \<open>Basic facts\<close>

lemma sendToClient_state: "snd (sendToClient st c m) = st"
  by (simp add: sendToClient_def split: option.splits)

lemma broadcast_each_state: "snd (broadcast_each st cl b m) = st"
proof (induction cl)
  case Nil
  show ?case by simp
next
  case (Cons p cl)
  obtain cid c where p: "p = (cid, c)" by (cases p)
  show ?case using Cons.IH
    by (simp add: p split_beta Let_def sendToClient_state)
qed

lemma broadcastToBrand_state: "snd (broadcastToBrand st b m) = st"
  by (simp add: broadcastToBrand_def broadcast_each_state)

lemma getOrCreate_JStr:
  "getOrCreate st (JStr k) now =
     (case brandSessions st k of Some s \<Rightarrow> Inr (k, s, st)
      | None \<Rightarrow> createBrandSession st (JStr k) now)"
  by (simp add: getOrCreate_def sessions_get_def split: option.splits)

lemma getOrCreate_Inr:
  assumes "getOrCreate st b now = Inr (k, s, st1)"
  shows "b = JStr k \<and> brandSessions st1 k = Some s \<and>
         (case brandSessions st k of
            Some s0 \<Rightarrow> s = s0 \<and> st1 = st
          | None \<Rightarrow> dimensions s = generateInitialDimensions now \<and> contradictions s = [] \<and>
                     gaps s = [] \<and> st1 = put_session st k s)"
proof -
  obtain k' where b: "b = JStr k'"
    using assms by (cases b) (simp_all add: getOrCreate_def sessions_get_def createBrandSession_def)
  show ?thesis
    using assms unfolding b getOrCreate_JStr
    by (cases "brandSessions st k'")
       (auto simp: createBrandSession_def Let_def put_session_def)
qed

text \<open>The state a run of \<open>handleWorkshopData\<close> leaves: the broadcast changes nothing.\<close>

lemma handleWorkshopData_state:
  "snd (snd (handleWorkshopData lc uuidv4 st body now)) =
     (case getOrCreate st (w_brandId body) now of
        Inl e \<Rightarrow> st
      | Inr (k, brandSession, st1) \<Rightarrow>
          (case applySignals lc brandSession (w_signals body) now of
             (s1, Some e) \<Rightarrow> put_session st1 k s1
           | (s1, None) \<Rightarrow>
               let (s2, n2) = replaceContradictions uuidv4 (uuidCalls st1) s1 (w_contradictions body) now;
                   (s3, n3) = replaceGaps uuidv4 n2 s2 (w_gaps body) now
               in (put_session st1 k s3)\<lparr>uuidCalls := n3\<rparr>))"
  unfolding handleWorkshopData_def
  by (simp add: Let_def split_beta broadcastToBrand_state split: sum.splits prod.splits option.splits)

lemma handleRefinementDialogue_state:
  "snd (snd (handleRefinementDialogue st body now)) = st"
  by (simp add: handleRefinementDialogue_def split_beta broadcastToBrand_state)

text \<open>Ascii strings are lowered letter by letter, whatever the parameter.\<close>

lemma toLowerCase_ascii: "is_ascii s \<Longrightarrow> toLowerCase lc s = map toLowerChar s"
  by (simp add: toLowerCase_def)

lemmas eval_defs =
  run_def initial_def handleWorkshopData_def getOrCreate_def sessions_get_def
  createBrandSession_def applySignals_def replaceContradictions_def replaceGaps_def
  put_session_def broadcastToBrand_def generateInitialDimensions_def matches_def
  includes_str_def sublist_code toLowerCase_def is_ascii_def toLowerChar_def
  updateDimension_def length_or_0_def Let_def


section \<open>What every run of the server keeps\<close>

text \<open>
  A property \<open>P\<close> of dimension lists that the default dimensions have and that an update
  of one dimension by a signal keeps holds of every stored session, in every state the
  server reaches from one where it holds.
\<close>

lemma process_signals_keeps:
  assumes upd: "\<And>dims i sig now. P dims \<Longrightarrow> P (dims[i := updateDimension (dims ! i) sig now])"
  shows "P dims \<Longrightarrow> P (fst (process_signals lc dims sigs now))"
proof (induction sigs arbitrary: dims)
  case Nil
  then show ?case by simp
next
  case (Cons sig sigs)
  show ?case
  proof (cases "find_dimension lc dims (category sig)")
    case (Inl e)
    then show ?thesis using Cons.prems by simp
  next
    case (Inr r)
    show ?thesis
    proof (cases r)
      case None
      then show ?thesis using Inr Cons by simp
    next
      case (Some i)
      have "P (dims[i := updateDimension (dims ! i) sig now])"
        using Cons.prems by (rule upd)
      then show ?thesis using Inr Some Cons.IH by simp
    qed
  qed
qed

lemma applySignals_keeps:
  assumes upd: "\<And>dims i sig now. P dims \<Longrightarrow> P (dims[i := updateDimension (dims ! i) sig now])"
  shows "P (dimensions s) \<Longrightarrow> P (dimensions (fst (applySignals lc s signals now)))"
  using process_signals_keeps [of P "dimensions s" lc _ now, OF upd]
  by (auto simp: applySignals_def split_beta split: option.splits)

lemma replaceContradictions_dimensions:
  "dimensions (fst (replaceContradictions uuidv4 n s cs now)) = dimensions s"
  by (simp add: replaceContradictions_def split: option.splits)

lemma replaceGaps_dimensions:
  "dimensions (fst (replaceGaps uuidv4 n s gs now)) = dimensions s"
  by (simp add: replaceGaps_def split: option.splits)

lemma sessions_all_put:
  "sessions_all P st \<Longrightarrow> P (dimensions s) \<Longrightarrow> sessions_all P (put_session st k s)"
  by (simp add: sessions_all_def put_session_def)

lemma getOrCreate_keeps:
  assumes init: "\<And>now. P (generateInitialDimensions now)"
    and "sessions_all P st" and "getOrCreate st b now = Inr (k, s, st1)"
  shows "sessions_all P st1 \<and> P (dimensions s)"
proof (cases "brandSessions st k")
  case None
  then show ?thesis
    using getOrCreate_Inr [OF assms(3)] assms(2) init [of now]
    by (simp add: sessions_all_put)
next
  case (Some s0)
  then show ?thesis
    using getOrCreate_Inr [OF assms(3)] assms(2)
    by (auto simp: sessions_all_def)
qed

lemma handleWorkshopData_keeps:
  assumes init: "\<And>now. P (generateInitialDimensions now)"
    and upd: "\<And>dims i sig now. P dims \<Longrightarrow> P (dims[i := updateDimension (dims ! i) sig now])"
    and inv: "sessions_all P st"
  shows "sessions_all P (snd (snd (handleWorkshopData lc uuidv4 st body now)))"
proof (cases "getOrCreate st (w_brandId body) now")
  case (Inl e)
  then show ?thesis using inv by (simp add: handleWorkshopData_state)
next
  case (Inr r)
  obtain k s st1 where r: "r = (k, s, st1)" by (cases r)
  have b1: "sessions_all P st1" and bs: "P (dimensions s)"
    using getOrCreate_keeps [of P st "w_brandId body" now k s st1, OF init inv] Inr r by auto
  obtain s1 err where a: "applySignals lc s (w_signals body) now = (s1, err)"
    by (cases "applySignals lc s (w_signals body) now")
  have b2: "P (dimensions s1)"
    using applySignals_keeps [of P s lc "w_signals body" now, OF upd bs] a by simp
  show ?thesis
  proof (cases err)
    case None
    obtain s2 n2 where c: "replaceContradictions uuidv4 (uuidCalls st1) s1 (w_contradictions body) now = (s2, n2)"
      by (cases "replaceContradictions uuidv4 (uuidCalls st1) s1 (w_contradictions body) now")
    obtain s3 n3 where g: "replaceGaps uuidv4 n2 s2 (w_gaps body) now = (s3, n3)"
      by (cases "replaceGaps uuidv4 n2 s2 (w_gaps body) now")
    have "dimensions s3 = dimensions s1"
      using replaceContradictions_dimensions [of uuidv4 "uuidCalls st1" s1 "w_contradictions body" now]
        replaceGaps_dimensions [of uuidv4 n2 s2 "w_gaps body" now] c g by simp
    then have "sessions_all P (put_session st1 k s3)"
      using b1 b2 by (simp add: sessions_all_put)
    then have "sessions_all P ((put_session st1 k s3)\<lparr>uuidCalls := n3\<rparr>)"
      by (simp add: sessions_all_def)
    then show ?thesis
      using Inr r a None c g by (simp add: handleWorkshopData_state)
  next
    case (Some e)
    then show ?thesis
      using Inr r a b1 b2 by (simp add: handleWorkshopData_state sessions_all_put)
  qed
qed

lemma handleCognitiveState_keeps:
  assumes init: "\<And>now. P (generateInitialDimensions now)"
    and inv: "sessions_all P st"
  shows "sessions_all P (snd (snd (handleCognitiveState st body now)))"
proof (cases "getOrCreate st (cb_brandId body) now")
  case (Inl e)
  then show ?thesis using inv by (simp add: handleCognitiveState_def)
next
  case (Inr r)
  obtain k s st1 where r: "r = (k, s, st1)" by (cases r)
  have b1: "sessions_all P st1" and bs: "P (dimensions s)"
    using getOrCreate_keeps [of P st "cb_brandId body" now k s st1, OF init inv] Inr r by auto
  show ?thesis
    using Inr r b1 bs
    by (simp add: handleCognitiveState_def Let_def split_beta broadcastToBrand_state
        sessions_all_put)
qed

lemma step_keeps:
  assumes init: "\<And>now. P (generateInitialDimensions now)"
    and upd: "\<And>dims i sig now. P dims \<Longrightarrow> P (dims[i := updateDimension (dims ! i) sig now])"
    and inv: "sessions_all P st"
  shows "sessions_all P (step lc uuidv4 st (req, now))"
proof (cases req)
  case (Connection sock)
  then show ?thesis using inv
    by (simp add: onConnection_def Let_def split_beta sendToClient_state sessions_all_def)
next
  case (Close c)
  then show ?thesis using inv by (simp add: onClose_def sessions_all_def)
next
  case (ReadyState c r)
  then show ?thesis using inv
    by (simp add: setReadyState_def sessions_all_def split: option.splits)
next
  case (JoinBrand c b)
  show ?thesis
  proof (cases "map_of (clients st) c")
    case None
    then show ?thesis using inv JoinBrand by (simp add: handleJoinBrand_def)
  next
    case (Some cl)
    define st1 where "st1 = st\<lparr>clients := AList.update c (cl\<lparr>brandId := b\<rparr>) (clients st)\<rparr>"
    have b1: "sessions_all P st1" using inv by (simp add: st1_def sessions_all_def)
    show ?thesis
    proof (cases "getOrCreate st1 b now")
      case (Inl e)
      then show ?thesis using JoinBrand Some b1
        by (simp add: handleJoinBrand_def Let_def st1_def)
    next
      case (Inr r)
      obtain k s st2 where r: "r = (k, s, st2)" by (cases r)
      have "sessions_all P st2"
        using getOrCreate_keeps [of P st1 b now k s st2, OF init b1] Inr r by auto
      then show ?thesis using JoinBrand Some Inr r
        by (simp add: handleJoinBrand_def Let_def st1_def [symmetric] split_beta sendToClient_state)
    qed
  qed
next
  case (WorkshopProcess body)
  then show ?thesis
    using handleWorkshopData_keeps [of P st lc uuidv4 body now, OF init upd inv] by simp
next
  case (CognitiveStatePost body)
  then show ?thesis
    using handleCognitiveState_keeps [of P st body now, OF init inv] by simp
next
  case (RefinementDialoguePost body)
  then show ?thesis using inv
    by (simp add: handleRefinementDialogue_state)
next
  case (BrandStateGet k)
  show ?thesis
  proof (cases "getOrCreate st (JStr k) now")
    case (Inl e)
    then show ?thesis using BrandStateGet inv by (simp add: getBrandState_def)
  next
    case (Inr r)
    obtain k' s st2 where r: "r = (k', s, st2)" by (cases r)
    have "sessions_all P st2"
      using getOrCreate_keeps [of P st "JStr k" now k' s st2, OF init inv] Inr r by auto
    then show ?thesis using BrandStateGet Inr r by (simp add: getBrandState_def)
  qed
qed

lemma run_keeps:
  assumes init: "\<And>now. P (generateInitialDimensions now)"
    and upd: "\<And>dims i sig now. P dims \<Longrightarrow> P (dims[i := updateDimension (dims ! i) sig now])"
  shows "sessions_all P st \<Longrightarrow> sessions_all P (run lc uuidv4 st reqs)"
proof (induction reqs arbitrary: st)
  case Nil
  then show ?case by (simp add: run_def)
next
  case (Cons r reqs)
  obtain req now where r: "r = (req, now)" by (cases r)
  have "sessions_all P (step lc uuidv4 st r)"
    unfolding r using init upd Cons.prems by (rule step_keeps)
  then show ?case using Cons.IH by (simp add: run_def)
qed

lemma reachable_keeps:
  assumes init: "\<And>now. P (generateInitialDimensions now)"
    and upd: "\<And>dims i sig now. P dims \<Longrightarrow> P (dims[i := updateDimension (dims ! i) sig now])"
  shows "sessions_all P (run lc uuidv4 initial reqs)"
proof -
  have "sessions_all P initial" by (simp add: sessions_all_def initial_def)
  then show ?thesis using init upd run_keeps by blast
qed
section \<open>Session store: lookup and creation\<close>

text \<open>
  C7. For every session id (a string) and every state of the server, the snapshot route
  cannot fail. When a session is stored under the id, the route returns that very
  session, whatever has been done to it since its creation, and leaves the whole state as
  it is: nothing is created. When no session is stored under the id, the route creates
  one with the id, the time of the call, the default dimensions (which are not empty),
  the default connections and no contradictions or gaps, and stores it under the id,
  leaving the other sessions alone. In both cases the session returned is stored under
  the id afterwards, and a second lookup, at any later time, returns the same session and
  the same state.
\<close>

theorem getBrandState_idempotent:
  "(brandSessions st k = Some s0 \<longrightarrow> getBrandState st k now = Inr (s0, st)) \<and>
   (brandSessions st k = None \<longrightarrow>
      (\<exists>s. getBrandState st k now = Inr (s, put_session st k s) \<and>
           session_id s = k \<and> createdAt s = now \<and>
           dimensions s = generateInitialDimensions now \<and> dimensions s \<noteq> [] \<and>
           connections s = generateInitialConnections \<and>
           contradictions s = [] \<and> gaps s = [])) \<and>
   (\<exists>s st1. getBrandState st k now = Inr (s, st1) \<and> brandSessions st1 k = Some s \<and>
      (\<forall>k'. k' \<noteq> k \<longrightarrow> brandSessions st1 k' = brandSessions st k') \<and>
      getBrandState st1 k later = Inr (s, st1))"
  by (cases "brandSessions st k")
     (simp_all add: getBrandState_def getOrCreate_JStr createBrandSession_def Let_def
        generateInitialDimensions_def put_session_def)

theorem getBrandState_idempotent_witness:
  "(\<exists>s. getBrandState
          (run (\<lambda>s. s) (\<lambda>n. replicate n (CHR ''u'')) initial
             [(WorkshopProcess
                 \<lparr> w_brandId = JStr ''demo'',
                   w_signals = Some [\<lparr> category = JStr ''market_position'', confidence = JNum 0.92 \<rparr>],
                   w_contradictions = None, w_gaps = None \<rparr>, 1)])
          ''demo'' 9
        = Inr (s, run (\<lambda>s. s) (\<lambda>n. replicate n (CHR ''u'')) initial
             [(WorkshopProcess
                 \<lparr> w_brandId = JStr ''demo'',
                   w_signals = Some [\<lparr> category = JStr ''market_position'', confidence = JNum 0.92 \<rparr>],
                   w_contradictions = None, w_gaps = None \<rparr>, 1)]) \<and>
        createdAt s = 1 \<and> coherence (hd (dimensions s)) = 0.97) \<and>
   (\<exists>s. getBrandState initial ''demo'' 5 = Inr (s, put_session initial ''demo'' s) \<and>
        getBrandState (put_session initial ''demo'' s) ''demo'' 9
          = Inr (s, put_session initial ''demo'' s) \<and>
        dimensions s = generateInitialDimensions 5 \<and> dimensions s \<noteq> [] \<and> createdAt s = 5)"
proof -
  define ST where "ST = run (\<lambda>s. s) (\<lambda>n. replicate n (CHR ''u'')) initial
             [(WorkshopProcess
                 \<lparr> w_brandId = JStr ''demo'',
                   w_signals = Some [\<lparr> category = JStr ''market_position'', confidence = JNum 0.92 \<rparr>],
                   w_contradictions = None, w_gaps = None \<rparr>, 1)]"
  have "\<exists>s0. brandSessions ST ''demo'' = Some s0 \<and> createdAt s0 = 1 \<and>
          coherence (hd (dimensions s0)) = 0.97"
    unfolding ST_def by (simp add: eval_defs)
  then obtain s0 where s0: "brandSessions ST ''demo'' = Some s0" "createdAt s0 = 1"
    "coherence (hd (dimensions s0)) = 0.97"
    by (elim exE conjE)
  have 1: "getBrandState ST ''demo'' 9 = Inr (s0, ST)"
    using getBrandState_idempotent [of ST "''demo''" s0 9 9, THEN conjunct1] s0(1) by simp
  have n: "brandSessions initial ''demo'' = None" by (simp add: initial_def)
  obtain s where s: "getBrandState initial ''demo'' 5 = Inr (s, put_session initial ''demo'' s)"
    "createdAt s = 5" "dimensions s = generateInitialDimensions 5" "dimensions s \<noteq> []"
    using getBrandState_idempotent [of initial "''demo''" s0 5 9, THEN conjunct2, THEN conjunct1] n
    by auto
  have st: "brandSessions (put_session initial ''demo'' s) ''demo'' = Some s"
    by (simp add: put_session_def)
  have 2: "getBrandState (put_session initial ''demo'' s) ''demo'' 9
          = Inr (s, put_session initial ''demo'' s)"
    using getBrandState_idempotent [of "put_session initial ''demo'' s" "''demo''" s 9 9,
        THEN conjunct1] st by simp
  show ?thesis
    unfolding ST_def [symmetric] using 1 2 s0 s by blast
qed


section \<open>Coherence stays at most 1\<close>

lemma updateDimension_coherence: "coherence (updateDimension d sig now) \<le> 1"
  by (simp add: updateDimension_def)

lemma coherence_bounded_update:
  "coherence_bounded dims \<Longrightarrow>
   coherence_bounded (dims[i := updateDimension (dims ! i) sig now])"
  unfolding coherence_bounded_def
  using updateDimension_coherence [of "dims ! i" sig now]
  by (metis insert_iff set_update_subset_insert subsetD)

lemma initial_dimensions_bounded: "coherence_bounded (generateInitialDimensions now)"
  by (simp add: coherence_bounded_def generateInitialDimensions_def)

text \<open>
  C6. In every state the server reaches from its start, by any sequence of events and
  requests (so after any number of signals applied to any session), every dimension of
  every stored session has coherence at most 1: a matched signal sets coherence to
  \<open>min (coherence + 0.05) 1\<close>, and nothing else changes it.
\<close>

theorem coherence_never_exceeds_one:
  "brandSessions (run lc uuidv4 initial reqs) k = Some s \<Longrightarrow> d \<in> set (dimensions s) \<Longrightarrow>
   coherence d \<le> 1"
proof -
  have "sessions_all coherence_bounded (run lc uuidv4 initial reqs)"
    using initial_dimensions_bounded coherence_bounded_update by (rule reachable_keeps)
  then show "brandSessions (run lc uuidv4 initial reqs) k = Some s \<Longrightarrow> d \<in> set (dimensions s) \<Longrightarrow>
   coherence d \<le> 1"
    by (simp add: sessions_all_def coherence_bounded_def)
qed

theorem coherence_never_exceeds_one_witness:
  "\<exists>s d. brandSessions
      (run (\<lambda>s. s) (\<lambda>n. replicate n (CHR ''u'')) initial
        [(WorkshopProcess
            \<lparr> w_brandId = JStr ''demo'',
              w_signals = Some (replicate 3 \<lparr> category = JStr ''market_position'', confidence = JNum 0.92 \<rparr>),
              w_contradictions = None, w_gaps = None \<rparr>, 5)]) ''demo'' = Some s \<and>
     d \<in> set (dimensions s) \<and> name d = ''market_position'' \<and> coherence d = 1 \<and> coherence d \<le> 1"
proof -
  define st where "st = run (\<lambda>s. s) (\<lambda>n. replicate n (CHR ''u'')) initial
        [(WorkshopProcess
            \<lparr> w_brandId = JStr ''demo'',
              w_signals = Some (replicate 3 \<lparr> category = JStr ''market_position'', confidence = JNum 0.92 \<rparr>),
              w_contradictions = None, w_gaps = None \<rparr>, 5)]"
  have "\<exists>s. brandSessions st ''demo'' = Some s \<and> dimensions s \<noteq> [] \<and>
          name (hd (dimensions s)) = ''market_position'' \<and> coherence (hd (dimensions s)) = 1"
    unfolding st_def by (simp add: eval_defs numeral_3_eq_3)
  then obtain s where s: "brandSessions st ''demo'' = Some s" "dimensions s \<noteq> []"
    "name (hd (dimensions s)) = ''market_position''" "coherence (hd (dimensions s)) = 1"
    by (elim exE conjE)
  have mem: "hd (dimensions s) \<in> set (dimensions s)" using s(2) by simp
  have "coherence (hd (dimensions s)) \<le> 1"
    using coherence_never_exceeds_one [OF s(1) [unfolded st_def] mem] .
  then show ?thesis using s mem unfolding st_def by blast
qed


section \<open>Which dimension a signal updates\<close>

lemma matches_JStr:
  "matches lc d (JStr c) = Inr (name d = c \<or> includes_str (name d) (toLowerCase lc c))"
  by (simp add: matches_def)

text \<open>
  On any list of dimensions, a signal whose category is a string finds the first
  dimension whose name equals the category or contains the lowered category.
\<close>

lemma find_dimension_first:
  assumes "i < length dims"
    and "name (dims ! i) = c \<or> includes_str (name (dims ! i)) (toLowerCase lc c)"
    and "\<forall>j<i. name (dims ! j) \<noteq> c \<and> \<not> includes_str (name (dims ! j)) (toLowerCase lc c)"
  shows "find_dimension lc dims (JStr c) = Inr (Some i)"
  using assms
proof (induction dims arbitrary: i)
  case Nil
  then show ?case by simp
next
  case (Cons d ds)
  show ?case
  proof (cases i)
    case 0
    then show ?thesis using Cons.prems(2) by (simp add: matches_JStr)
  next
    case (Suc i')
    have d: "name d \<noteq> c \<and> \<not> includes_str (name d) (toLowerCase lc c)"
      using Cons.prems(3) Suc by auto
    have "find_dimension lc ds (JStr c) = Inr (Some i')"
    proof (rule Cons.IH)
      show "i' < length ds" using Cons.prems(1) Suc by simp
      show "name (ds ! i') = c \<or> includes_str (name (ds ! i')) (toLowerCase lc c)"
        using Cons.prems(2) Suc by simp
      show "\<forall>j<i'. name (ds ! j) \<noteq> c \<and> \<not> includes_str (name (ds ! j)) (toLowerCase lc c)"
        using Cons.prems(3) Suc by auto
    qed
    then show ?thesis using d Suc by (simp add: matches_JStr)
  qed
qed








section \<open>Contradictions and gaps are replaced, unless the list is empty\<close>

lemma handleWorkshopData_response:
  "fst (handleWorkshopData lc uuidv4 st body now) =
     (case getOrCreate st (w_brandId body) now of
        Inl e \<Rightarrow> ServerError500
      | Inr (k, brandSession, st1) \<Rightarrow>
          (case snd (applySignals lc brandSession (w_signals body) now) of
             Some e \<Rightarrow> ServerError500
           | None \<Rightarrow> Ok200))"
  unfolding handleWorkshopData_def
  by (simp add: Let_def split_beta split: sum.splits prod.splits option.splits)

lemma stampContradictions_fields: "map c_fields (stampContradictions g n t cs) = cs"
  by (induction cs arbitrary: n) simp_all

lemma stampContradictions_ids:
  "map c_id (stampContradictions g n t cs) = map g [n ..< n + length cs]"
proof (induction cs arbitrary: n)
  case Nil
  show ?case by simp
next
  case (Cons c cs)
  have "[n ..< n + length (c # cs)] = n # [Suc n ..< Suc n + length cs]"
    by (subst upt_rec) simp
  then show ?case using Cons.IH [of "Suc n"] by simp
qed

lemma stampContradictions_detected:
  "c \<in> set (stampContradictions g n t cs) \<Longrightarrow> detected c = t"
  by (induction cs arbitrary: n) auto

lemma stampGaps_fields: "map g_fields (stampGaps g n t gs) = gs"
  by (induction gs arbitrary: n) simp_all

lemma stampGaps_ids:
  "map g_id (stampGaps g n t gs) = map g [n ..< n + length gs]"
proof (induction gs arbitrary: n)
  case Nil
  show ?case by simp
next
  case (Cons x gs)
  have "[n ..< n + length (x # gs)] = n # [Suc n ..< Suc n + length gs]"
    by (subst upt_rec) simp
  then show ?case using Cons.IH [of "Suc n"] by simp
qed

lemma stampGaps_identified:
  "x \<in> set (stampGaps g n t gs) \<Longrightarrow> identified x = t"
  by (induction gs arbitrary: n) auto

lemma fresh_ids:
  assumes "inj g"
  shows "distinct (map g [n ..< n + m]) \<and> (\<forall>i<n. g i \<notin> set (map g [n ..< n + m]))"
proof
  show "distinct (map g [n ..< n + m])"
    using assms by (simp add: distinct_map inj_on_def inj_def)
  show "\<forall>i<n. g i \<notin> set (map g [n ..< n + m])"
    using assms by (auto dest!: injD)
qed

lemma replaceContradictions_snd:
  "snd (replaceContradictions uuidv4 n s cs now) = n + length_or_0 cs"
  by (simp add: replaceContradictions_def length_or_0_def split: option.splits)

lemma replaceContradictions_gaps:
  "gaps (fst (replaceContradictions uuidv4 n s cs now)) = gaps s"
  by (simp add: replaceContradictions_def split: option.splits)

lemma replaceGaps_contradictions:
  "contradictions (fst (replaceGaps uuidv4 n s gs now)) = contradictions s"
  by (simp add: replaceGaps_def split: option.splits)

lemma applySignals_contradictions:
  "contradictions (fst (applySignals lc s sg now)) = contradictions s"
  by (simp add: applySignals_def split_beta split: option.splits)

lemma applySignals_gaps:
  "gaps (fst (applySignals lc s sg now)) = gaps s"
  by (simp add: applySignals_def split_beta split: option.splits)

text \<open>
  The session a successful run of \<open>handleWorkshopData\<close> stores under the key of the
  request.
\<close>

lemma handleWorkshopData_Ok:
  assumes "handleWorkshopData lc uuidv4 st body now = (Ok200, evs, st')"
    and "w_brandId body = JStr k"
  shows "\<exists>s0 st1 s1.
           getOrCreate st (JStr k) now = Inr (k, s0, st1) \<and>
           uuidCalls st1 = uuidCalls st \<and>
           applySignals lc s0 (w_signals body) now = (s1, None) \<and>
           brandSessions st' k =
             Some (fst (replaceGaps uuidv4 (uuidCalls st + length_or_0 (w_contradictions body))
                      (fst (replaceContradictions uuidv4 (uuidCalls st) s1 (w_contradictions body) now))
                      (w_gaps body) now))"
proof (cases "getOrCreate st (JStr k) now")
  case (Inl e)
  then have "fst (handleWorkshopData lc uuidv4 st body now) = ServerError500"
    using assms(2) by (simp add: handleWorkshopData_response)
  then show ?thesis using assms(1) by simp
next
  case (Inr r)
  obtain k' s0 st1 where r: "r = (k', s0, st1)" by (cases r)
  have k': "k' = k" using getOrCreate_Inr [of st "JStr k" now k' s0 st1] Inr r by simp
  have u: "uuidCalls st1 = uuidCalls st"
    using getOrCreate_Inr [of st "JStr k" now k' s0 st1] Inr r
    by (cases "brandSessions st k'") (auto simp: put_session_def)
  obtain s1 err where a: "applySignals lc s0 (w_signals body) now = (s1, err)"
    by (cases "applySignals lc s0 (w_signals body) now")
  have "fst (handleWorkshopData lc uuidv4 st body now) = Ok200" using assms(1) by simp
  then have err: "err = None"
    using Inr r a assms(2) by (simp add: handleWorkshopData_response split: option.splits)
  have "snd (snd (handleWorkshopData lc uuidv4 st body now)) = st'" using assms(1) by simp
  then have "brandSessions st' k =
             Some (fst (replaceGaps uuidv4 (uuidCalls st + length_or_0 (w_contradictions body))
                      (fst (replaceContradictions uuidv4 (uuidCalls st) s1 (w_contradictions body) now))
                      (w_gaps body) now))"
    using Inr r k' a err assms(2) u
      replaceContradictions_snd [of uuidv4 "uuidCalls st" s1 "w_contradictions body" now]
    by (auto simp: handleWorkshopData_state split_beta Let_def put_session_def)
  then show ?thesis using Inr r k' a err u by simp
qed


text \<open>
  C5, as amended. After two calls of the workshop route for the same session, the second
  answered with success: when the second call carries a non-empty list of contradictions,
  the session's contradictions are exactly the entries of that list, in order, each with
  the id drawn for it from \<open>uuidv4\<close> (the draws following those made before the call) and
  with \<open>detected\<close> set to the time of the call; nothing of the first list is left. With a
  generator that never repeats, the ids are distinct and none was drawn before. The same
  holds for a non-empty list of gaps, stamped with \<open>identified\<close>; its draws follow those
  of the contradictions.
\<close>

theorem replace_wholesale:
  assumes "handleWorkshopData lc uuidv4 st body1 t1 = (r1, ev1, st1)"
    and "handleWorkshopData lc uuidv4 st1 body2 t2 = (Ok200, ev2, st2)"
    and "w_brandId body1 = JStr k" and "w_brandId body2 = JStr k"
  shows "\<exists>s. brandSessions st2 k = Some s \<and>
     (\<forall>cs. w_contradictions body2 = Some cs \<and> cs \<noteq> [] \<longrightarrow>
        map c_fields (contradictions s) = cs \<and>
        map c_id (contradictions s) = map uuidv4 [uuidCalls st1 ..< uuidCalls st1 + length cs] \<and>
        (\<forall>c \<in> set (contradictions s). detected c = t2) \<and>
        (inj uuidv4 \<longrightarrow> distinct (map c_id (contradictions s)) \<and>
           (\<forall>i<uuidCalls st1. uuidv4 i \<notin> set (map c_id (contradictions s))))) \<and>
     (\<forall>gs. w_gaps body2 = Some gs \<and> gs \<noteq> [] \<longrightarrow>
        map g_fields (gaps s) = gs \<and>
        map g_id (gaps s) =
          map uuidv4 [uuidCalls st1 + length_or_0 (w_contradictions body2) ..<
                      uuidCalls st1 + length_or_0 (w_contradictions body2) + length gs] \<and>
        (\<forall>g \<in> set (gaps s). identified g = t2) \<and>
        (inj uuidv4 \<longrightarrow> distinct (map g_id (gaps s)) \<and>
           (\<forall>i<uuidCalls st1. uuidv4 i \<notin> set (map g_id (gaps s)))))"
proof -
  obtain s0 st1' s1 where
    ok: "applySignals lc s0 (w_signals body2) t2 = (s1, None)"
      "brandSessions st2 k =
         Some (fst (replaceGaps uuidv4 (uuidCalls st1 + length_or_0 (w_contradictions body2))
                  (fst (replaceContradictions uuidv4 (uuidCalls st1) s1 (w_contradictions body2) t2))
                  (w_gaps body2) t2))"
    using handleWorkshopData_Ok [OF assms(2) assms(4)] by blast
  define n where "n = uuidCalls st1"
  define m where "m = uuidCalls st1 + length_or_0 (w_contradictions body2)"
  define sc where "sc = fst (replaceContradictions uuidv4 n s1 (w_contradictions body2) t2)"
  define s where "s = fst (replaceGaps uuidv4 m sc (w_gaps body2) t2)"
  have stored: "brandSessions st2 k = Some s"
    using ok(2) by (simp add: s_def sc_def n_def m_def)
  have cpart: "map c_fields (contradictions s) = cs \<and>
        map c_id (contradictions s) = map uuidv4 [n ..< n + length cs] \<and>
        (\<forall>c \<in> set (contradictions s). detected c = t2) \<and>
        (inj uuidv4 \<longrightarrow> distinct (map c_id (contradictions s)) \<and>
           (\<forall>i<n. uuidv4 i \<notin> set (map c_id (contradictions s))))"
    if h: "w_contradictions body2 = Some cs \<and> cs \<noteq> []" for cs
  proof -
    have c: "contradictions s = stampContradictions uuidv4 n t2 cs"
      using h by (simp add: s_def sc_def replaceGaps_contradictions replaceContradictions_def)
    show ?thesis
      unfolding c
      using fresh_ids [of uuidv4 n "length cs"]
      by (simp add: stampContradictions_fields stampContradictions_ids
          stampContradictions_detected del: set_map map_map)
  qed
  have gpart: "map g_fields (gaps s) = gs \<and>
        map g_id (gaps s) = map uuidv4 [m ..< m + length gs] \<and>
        (\<forall>g \<in> set (gaps s). identified g = t2) \<and>
        (inj uuidv4 \<longrightarrow> distinct (map g_id (gaps s)) \<and>
           (\<forall>i<n. uuidv4 i \<notin> set (map g_id (gaps s))))"
    if h: "w_gaps body2 = Some gs \<and> gs \<noteq> []" for gs
  proof -
    have g: "gaps s = stampGaps uuidv4 m t2 gs"
      using h by (simp add: s_def replaceGaps_def)
    have "n \<le> m" by (simp add: n_def m_def)
    then have "\<forall>i<n. i < m" by simp
    then show ?thesis
      unfolding g
      using fresh_ids [of uuidv4 m "length gs"]
      by (simp add: stampGaps_fields stampGaps_ids stampGaps_identified del: set_map map_map)
  qed
  show ?thesis
    using stored cpart gpart unfolding n_def m_def by blast
qed


theorem replace_wholesale_witness:
  "\<exists>s. brandSessions
        (run (\<lambda>s. s) (\<lambda>n. replicate n (CHR ''u'')) initial
           [(WorkshopProcess \<lparr> w_brandId = JStr ''demo'', w_signals = None,
               w_contradictions = Some [JStr ''a'', JStr ''b''], w_gaps = None \<rparr>, 1),
            (WorkshopProcess \<lparr> w_brandId = JStr ''demo'', w_signals = None,
               w_contradictions = Some [JStr ''c''], w_gaps = Some [JStr ''g''] \<rparr>, 2)])
        ''demo'' = Some s \<and>
      map c_fields (contradictions s) = [JStr ''c''] \<and> map c_id (contradictions s) = [''uu''] \<and>
      map detected (contradictions s) = [2] \<and>
      map g_fields (gaps s) = [JStr ''g''] \<and> map g_id (gaps s) = [''uuu''] \<and>
      map identified (gaps s) = [2] \<and>
      distinct (map c_id (contradictions s)) \<and>
      replicate 0 (CHR ''u'') \<notin> set (map c_id (contradictions s)) \<and>
      replicate 1 (CHR ''u'') \<notin> set (map c_id (contradictions s))"
proof -
  let ?G = "\<lambda>n. replicate n (CHR ''u'')"
  let ?b1 = "\<lparr> w_brandId = JStr ''demo'', w_signals = None,
               w_contradictions = Some [JStr ''a'', JStr ''b''], w_gaps = None \<rparr>"
  let ?b2 = "\<lparr> w_brandId = JStr ''demo'', w_signals = None,
               w_contradictions = Some [JStr ''c''], w_gaps = Some [JStr ''g''] \<rparr>"
  define st1 where "st1 = snd (snd (handleWorkshopData (\<lambda>s. s) ?G initial ?b1 1))"
  define st2 where "st2 = snd (snd (handleWorkshopData (\<lambda>s. s) ?G st1 ?b2 2))"
  have h1: "handleWorkshopData (\<lambda>s. s) ?G initial ?b1 1 =
      (fst (handleWorkshopData (\<lambda>s. s) ?G initial ?b1 1), fst (snd (handleWorkshopData (\<lambda>s. s) ?G initial ?b1 1)), st1)"
    by (simp add: st1_def)
  have "fst (handleWorkshopData (\<lambda>s. s) ?G st1 ?b2 2) = Ok200"
    unfolding st1_def by (simp add: eval_defs split_beta)
  then have h2: "handleWorkshopData (\<lambda>s. s) ?G st1 ?b2 2 =
      (Ok200, fst (snd (handleWorkshopData (\<lambda>s. s) ?G st1 ?b2 2)), st2)"
    unfolding st2_def by (metis prod.collapse)
  have u: "uuidCalls st1 = 2"
    unfolding st1_def by (simp add: eval_defs split_beta)
  have r: "run (\<lambda>s. s) ?G initial [(WorkshopProcess ?b1, 1), (WorkshopProcess ?b2, 2)] = st2"
    by (simp add: run_def st1_def st2_def)
  have i: "inj ?G"
    by (rule injI) (metis length_replicate)
  obtain s where s: "brandSessions st2 ''demo'' = Some s"
    and c: "\<forall>cs. w_contradictions ?b2 = Some cs \<and> cs \<noteq> [] \<longrightarrow>
        map c_fields (contradictions s) = cs \<and>
        map c_id (contradictions s) = map ?G [uuidCalls st1 ..< uuidCalls st1 + length cs] \<and>
        (\<forall>c \<in> set (contradictions s). detected c = 2) \<and>
        (inj ?G \<longrightarrow> distinct (map c_id (contradictions s)) \<and>
           (\<forall>i<uuidCalls st1. ?G i \<notin> set (map c_id (contradictions s))))"
    and g: "\<forall>gs. w_gaps ?b2 = Some gs \<and> gs \<noteq> [] \<longrightarrow>
        map g_fields (gaps s) = gs \<and>
        map g_id (gaps s) =
          map ?G [uuidCalls st1 + length_or_0 (w_contradictions ?b2) ..<
                      uuidCalls st1 + length_or_0 (w_contradictions ?b2) + length gs] \<and>
        (\<forall>g \<in> set (gaps s). identified g = 2) \<and>
        (inj ?G \<longrightarrow> distinct (map g_id (gaps s)) \<and>
           (\<forall>i<uuidCalls st1. ?G i \<notin> set (map g_id (gaps s))))"
    using replace_wholesale [OF h1 h2] by auto
  have c1: "map c_fields (contradictions s) = [JStr ''c'']"
    and c2: "map c_id (contradictions s) = map ?G [2 ..< 3]"
    and c3: "\<forall>c \<in> set (contradictions s). detected c = 2"
    using c [rule_format, of "[JStr ''c'']"] u by simp_all
  have g1: "map g_fields (gaps s) = [JStr ''g'']"
    and g2: "map g_id (gaps s) = map ?G [3 ..< 4]"
    and g3: "\<forall>g \<in> set (gaps s). identified g = 2"
    using g [rule_format, of "[JStr ''g'']"] u by (simp_all add: length_or_0_def)
  have lc: "length (contradictions s) = 1"
    using c1 by (metis length_map length_Cons list.size(3) One_nat_def)
  have lg: "length (gaps s) = 1"
    using g1 by (metis length_map length_Cons list.size(3) One_nat_def)
  have d: "map detected (contradictions s) = [2]"
    using c3 lc by (cases "contradictions s") auto
  have e: "map identified (gaps s) = [2]"
    using g3 lg by (cases "gaps s") auto
  have f: "distinct (map c_id (contradictions s))"
    and fr: "\<forall>i<uuidCalls st1. ?G i \<notin> set (map c_id (contradictions s))"
    using c [rule_format, of "[JStr ''c'']"] i by simp_all
  have f0: "?G 0 \<notin> set (map c_id (contradictions s))"
    using fr [rule_format, of 0] u by simp
  have f1: "?G 1 \<notin> set (map c_id (contradictions s))"
    using fr [rule_format, of 1] u by simp
  have "map ?G [2 ..< 3] = [''uu'']" "map ?G [3 ..< 4] = [''uuu'']"
    by (simp_all add: numeral_2_eq_2 numeral_3_eq_3 upt_rec)
  then show ?thesis
    unfolding r using s c1 c2 g1 g2 d e f f0 f1 by (simp del: set_map)
qed

text \<open>
  The claim as first stated fails when the second list is empty: after a call with the
  list \<open>[a]\<close> and a successful call with the empty list, the session still holds the entry
  for \<open>a\<close>.
\<close>

theorem replace_wholesale_counterexample:
  "fst (handleWorkshopData (\<lambda>s. s) (\<lambda>n. replicate n (CHR ''u''))
          (run (\<lambda>s. s) (\<lambda>n. replicate n (CHR ''u'')) initial
             [(WorkshopProcess \<lparr> w_brandId = JStr ''demo'', w_signals = None,
                 w_contradictions = Some [JStr ''a''], w_gaps = None \<rparr>, 1)])
          \<lparr> w_brandId = JStr ''demo'', w_signals = None,
            w_contradictions = Some [], w_gaps = None \<rparr> 2) = Ok200 \<and>
   map c_fields (contradictions (the (brandSessions
        (run (\<lambda>s. s) (\<lambda>n. replicate n (CHR ''u'')) initial
           [(WorkshopProcess \<lparr> w_brandId = JStr ''demo'', w_signals = None,
               w_contradictions = Some [JStr ''a''], w_gaps = None \<rparr>, 1),
            (WorkshopProcess \<lparr> w_brandId = JStr ''demo'', w_signals = None,
               w_contradictions = Some [], w_gaps = None \<rparr>, 2)])
        ''demo''))) = [JStr ''a'']"
  by (simp add: eval_defs split_beta)


lemma put_session_same:
  "brandSessions st k = Some s \<Longrightarrow> put_session st k s = st"
  by (simp add: put_session_def map_upd_triv)

lemma getOrCreate_other:
  "getOrCreate st b now = Inr (k, s, st1) \<Longrightarrow> brandSessions st k' = Some s' \<Longrightarrow>
   brandSessions st1 k' = Some s' \<and> (k' = k \<longrightarrow> s = s')"
  using getOrCreate_Inr [of st b now k s st1]
  by (cases "brandSessions st k") (auto simp: put_session_def)

text \<open>
  C10. An empty list of contradictions takes the same branch as an absent one: the
  block returns the session as it is and draws no id, and after the request every
  session of the store has the contradictions it had before. The same holds for gaps.
  A request for a stored session whose signals, contradictions and gaps are each absent
  or empty leaves the whole server state as it was.
\<close>

theorem empty_batch_changes_nothing:
  "replaceContradictions uuidv4 n s (Some []) now = (s, n) \<and>
   replaceGaps uuidv4 n s (Some []) now = (s, n) \<and>
   (w_contradictions body = Some [] \<and> brandSessions st k = Some s0 \<longrightarrow>
      (\<exists>s'. brandSessions (snd (snd (handleWorkshopData lc uuidv4 st body now))) k = Some s' \<and>
            contradictions s' = contradictions s0)) \<and>
   (w_gaps body = Some [] \<and> brandSessions st k = Some s0 \<longrightarrow>
      (\<exists>s'. brandSessions (snd (snd (handleWorkshopData lc uuidv4 st body now))) k = Some s' \<and>
            gaps s' = gaps s0)) \<and>
   (w_brandId body = JStr k \<and> brandSessions st k = Some s0 \<and>
    (w_signals body = None \<or> w_signals body = Some []) \<and>
    (w_contradictions body = None \<or> w_contradictions body = Some []) \<and>
    (w_gaps body = None \<or> w_gaps body = Some [])
    \<longrightarrow> snd (snd (handleWorkshopData lc uuidv4 st body now)) = st)"
proof (intro conjI impI)
  show "replaceContradictions uuidv4 n s (Some []) now = (s, n)"
    by (simp add: replaceContradictions_def)
  show "replaceGaps uuidv4 n s (Some []) now = (s, n)"
    by (simp add: replaceGaps_def)
next
  assume a: "w_contradictions body = Some [] \<and> brandSessions st k = Some s0"
  show "\<exists>s'. brandSessions (snd (snd (handleWorkshopData lc uuidv4 st body now))) k = Some s' \<and>
            contradictions s' = contradictions s0"
  proof (cases "getOrCreate st (w_brandId body) now")
    case (Inl e)
    then show ?thesis using a by (simp add: handleWorkshopData_state)
  next
    case (Inr r)
    obtain k1 s1 st1 where r: "r = (k1, s1, st1)" by (cases r)
    have o: "brandSessions st1 k = Some s0 \<and> (k = k1 \<longrightarrow> s1 = s0)"
      using getOrCreate_other [of st "w_brandId body" now k1 s1 st1 k s0] Inr r a by simp
    obtain s2 err where ap: "applySignals lc s1 (w_signals body) now = (s2, err)"
      by (cases "applySignals lc s1 (w_signals body) now")
    have c2: "contradictions s2 = contradictions s1"
      using applySignals_contradictions [of lc s1 "w_signals body" now] ap by simp
    show ?thesis
      using Inr r o ap c2 a
      by (cases err)
         (auto simp: handleWorkshopData_state put_session_def replaceContradictions_def
            replaceGaps_contradictions split_beta Let_def)
  qed
next
  assume a: "w_gaps body = Some [] \<and> brandSessions st k = Some s0"
  show "\<exists>s'. brandSessions (snd (snd (handleWorkshopData lc uuidv4 st body now))) k = Some s' \<and>
            gaps s' = gaps s0"
  proof (cases "getOrCreate st (w_brandId body) now")
    case (Inl e)
    then show ?thesis using a by (simp add: handleWorkshopData_state)
  next
    case (Inr r)
    obtain k1 s1 st1 where r: "r = (k1, s1, st1)" by (cases r)
    have o: "brandSessions st1 k = Some s0 \<and> (k = k1 \<longrightarrow> s1 = s0)"
      using getOrCreate_other [of st "w_brandId body" now k1 s1 st1 k s0] Inr r a by simp
    obtain s2 err where ap: "applySignals lc s1 (w_signals body) now = (s2, err)"
      by (cases "applySignals lc s1 (w_signals body) now")
    have c2: "gaps s2 = gaps s1"
      using applySignals_gaps [of lc s1 "w_signals body" now] ap by simp
    show ?thesis
      using Inr r o ap c2 a
      by (cases err)
         (auto simp: handleWorkshopData_state put_session_def replaceGaps_def
            replaceContradictions_gaps split_beta Let_def)
  qed
next
  assume a: "w_brandId body = JStr k \<and> brandSessions st k = Some s0 \<and>
    (w_signals body = None \<or> w_signals body = Some []) \<and>
    (w_contradictions body = None \<or> w_contradictions body = Some []) \<and>
    (w_gaps body = None \<or> w_gaps body = Some [])"
  then have g: "getOrCreate st (w_brandId body) now = Inr (k, s0, st)"
    by (simp add: getOrCreate_JStr)
  have ap: "applySignals lc s0 (w_signals body) now = (s0, None)"
    using a by (auto simp: applySignals_def)
  have rc: "replaceContradictions uuidv4 (uuidCalls st) s0 (w_contradictions body) now = (s0, uuidCalls st)"
    using a by (auto simp: replaceContradictions_def)
  have rg: "replaceGaps uuidv4 (uuidCalls st) s0 (w_gaps body) now = (s0, uuidCalls st)"
    using a by (auto simp: replaceGaps_def)
  show "snd (snd (handleWorkshopData lc uuidv4 st body now)) = st"
    using a g ap rc rg by (simp add: handleWorkshopData_state put_session_same)
qed


theorem empty_batch_changes_nothing_witness:
  "\<exists>s'. brandSessions
          (snd (snd (handleWorkshopData (\<lambda>s. s) (\<lambda>n. replicate n (CHR ''u''))
             (run (\<lambda>s. s) (\<lambda>n. replicate n (CHR ''u'')) initial
               [(WorkshopProcess \<lparr> w_brandId = JStr ''demo'', w_signals = None,
                   w_contradictions = Some [JStr ''a''], w_gaps = Some [JStr ''g''] \<rparr>, 1)])
             \<lparr> w_brandId = JStr ''demo'', w_signals = None,
               w_contradictions = Some [], w_gaps = Some [] \<rparr> 2))) ''demo'' = Some s' \<and>
        map c_fields (contradictions s') = [JStr ''a''] \<and>
        map g_fields (gaps s') = [JStr ''g''] \<and>
        snd (snd (handleWorkshopData (\<lambda>s. s) (\<lambda>n. replicate n (CHR ''u''))
             (run (\<lambda>s. s) (\<lambda>n. replicate n (CHR ''u'')) initial
               [(WorkshopProcess \<lparr> w_brandId = JStr ''demo'', w_signals = None,
                   w_contradictions = Some [JStr ''a''], w_gaps = Some [JStr ''g''] \<rparr>, 1)])
             \<lparr> w_brandId = JStr ''demo'', w_signals = None,
               w_contradictions = Some [], w_gaps = Some [] \<rparr> 2))
        = run (\<lambda>s. s) (\<lambda>n. replicate n (CHR ''u'')) initial
               [(WorkshopProcess \<lparr> w_brandId = JStr ''demo'', w_signals = None,
                   w_contradictions = Some [JStr ''a''], w_gaps = Some [JStr ''g''] \<rparr>, 1)]"
proof -
  let ?G = "\<lambda>n. replicate n (CHR ''u'')"
  let ?B = "\<lparr> w_brandId = JStr ''demo'', w_signals = None,
               w_contradictions = Some [], w_gaps = Some [] \<rparr>"
  define ST where "ST = run (\<lambda>s. s) ?G initial
               [(WorkshopProcess \<lparr> w_brandId = JStr ''demo'', w_signals = None,
                   w_contradictions = Some [JStr ''a''], w_gaps = Some [JStr ''g''] \<rparr>, 1)]"
  have "\<exists>s0. brandSessions ST ''demo'' = Some s0 \<and>
          map c_fields (contradictions s0) = [JStr ''a''] \<and> map g_fields (gaps s0) = [JStr ''g'']"
    unfolding ST_def by (simp add: eval_defs split_beta)
  then obtain s0 where s0: "brandSessions ST ''demo'' = Some s0"
    "map c_fields (contradictions s0) = [JStr ''a'']" "map g_fields (gaps s0) = [JStr ''g'']"
    by (elim exE conjE)
  note t = empty_batch_changes_nothing [of ?G 0 s0 2 ?B ST "''demo''" s0 "\<lambda>s. s"]
  have t3: "\<exists>s'. brandSessions (snd (snd (handleWorkshopData (\<lambda>s. s) ?G ST ?B 2))) ''demo'' = Some s' \<and>
            contradictions s' = contradictions s0"
    using t [THEN conjunct2, THEN conjunct2, THEN conjunct1] s0(1) by simp
  have t4: "\<exists>s'. brandSessions (snd (snd (handleWorkshopData (\<lambda>s. s) ?G ST ?B 2))) ''demo'' = Some s' \<and>
            gaps s' = gaps s0"
    using t [THEN conjunct2, THEN conjunct2, THEN conjunct2, THEN conjunct1] s0(1) by simp
  have same: "snd (snd (handleWorkshopData (\<lambda>s. s) ?G ST ?B 2)) = ST"
    using t [THEN conjunct2, THEN conjunct2, THEN conjunct2, THEN conjunct2] s0(1) by simp
  obtain s' where s': "brandSessions (snd (snd (handleWorkshopData (\<lambda>s. s) ?G ST ?B 2))) ''demo'' = Some s'"
    "contradictions s' = contradictions s0"
    using t3 by (elim exE conjE)
  obtain s'' where s'': "brandSessions (snd (snd (handleWorkshopData (\<lambda>s. s) ?G ST ?B 2))) ''demo'' = Some s''"
    "gaps s'' = gaps s0"
    using t4 by (elim exE conjE)
  have "s'' = s'" using s'(1) s''(1) by simp
  then show ?thesis
    unfolding ST_def [symmetric] using s' s'' s0 same by simp
qed

section \<open>Cognitive state: what an omitted or zero field becomes\<close>

lemma js_or_not_zero: "d \<noteq> JNum 0 \<Longrightarrow> js_or a d \<noteq> JNum 0"
  by (cases a) (auto simp: js_or_def)

lemma handleCognitiveState_JStr:
  "cb_brandId body = JStr k \<Longrightarrow>
   \<exists>s0 st1 evs.
     getOrCreate st (JStr k) now = Inr (k, s0, st1) \<and>
     handleCognitiveState st body now =
       (Ok200, evs,
        put_session st1 k
          (s0\<lparr>cognitiveState :=
               \<lparr> analytical = js_or (cb_analytical body) (JNum 0.7),
                 intuitive = js_or (cb_intuitive body) (JNum 0.7),
                 efficiency = js_or (cb_efficiency body) (JNum 0.75),
                 lastUpdate = Some now,
                 cs_context = js_or (cb_context body) (JObj []) \<rparr>\<rparr>))"
proof -
  assume b: "cb_brandId body = JStr k"
  obtain s0 st1 where g: "getOrCreate st (JStr k) now = Inr (k, s0, st1)"
    by (cases "brandSessions st k") (auto simp: getOrCreate_JStr createBrandSession_def Let_def)
  let ?cs = "\<lparr> analytical = js_or (cb_analytical body) (JNum 0.7),
                 intuitive = js_or (cb_intuitive body) (JNum 0.7),
                 efficiency = js_or (cb_efficiency body) (JNum 0.75),
                 lastUpdate = Some now,
                 cs_context = js_or (cb_context body) (JObj []) \<rparr>"
  let ?st2 = "put_session st1 k (s0\<lparr>cognitiveState := ?cs\<rparr>)"
  have "handleCognitiveState st body now =
      (Ok200, fst (broadcastToBrand ?st2 (JStr k) (CognitiveUpdate (JStr k) ?cs)), ?st2)"
    using b g
    by (simp add: handleCognitiveState_def Let_def split_beta broadcastToBrand_state prod_eq_iff)
  then show ?thesis using g by blast
qed

lemmas eval_cog =
  run_def initial_def handleCognitiveState_def getOrCreate_def sessions_get_def
  createBrandSession_def put_session_def broadcastToBrand_def js_or_def Let_def

text \<open>
  C2, as amended. Every call rebuilds \<open>cognitiveState\<close> from the request and from
  constants; the values the session held are not read. In the WebSocket server, for a
  request with a string \<open>brandId\<close>, the call succeeds and the session found or created
  under the id gets exactly this state: each of \<open>analytical\<close>, \<open>intuitive\<close>, \<open>efficiency\<close>
  as submitted when truthy, and otherwise (omitted, or 0) the constant 0.7, 0.7, 0.75 of
  the handler, which is the value a session is created with; \<open>context\<close> as submitted when
  truthy and otherwise the empty object; \<open>lastUpdate\<close> the time of the call. Nothing
  else changes. In the serverless route, for a truthy \<open>brandId\<close>, the session the route
  has just created gets the same state with 0.5, 0.5, 0.7, its values at creation, and
  without \<open>lastUpdate\<close>.
\<close>

theorem cognitive_state_fallbacks:
  "(cb_brandId body = JStr k \<longrightarrow>
      (\<exists>s0 st1.
         getOrCreate st (JStr k) now = Inr (k, s0, st1) \<and>
         (\<forall>s'. brandSessions st k = Some s' \<longrightarrow> s0 = s' \<and> st1 = st) \<and>
         fst (handleCognitiveState st body now) = Ok200 \<and>
         snd (snd (handleCognitiveState st body now)) =
           put_session st1 k
             (s0\<lparr>cognitiveState :=
                  \<lparr> analytical = (if truthy (cb_analytical body) then cb_analytical body
                                  else JNum 0.7),
                    intuitive = (if truthy (cb_intuitive body) then cb_intuitive body
                                 else JNum 0.7),
                    efficiency = (if truthy (cb_efficiency body) then cb_efficiency body
                                  else JNum 0.75),
                    lastUpdate = Some now,
                    cs_context = (if truthy (cb_context body) then cb_context body
                                  else JObj []) \<rparr>\<rparr>))) \<and>
   (truthy (cb_brandId body) \<longrightarrow>
      api_cognitive_state body now =
        (Ok200,
         Some ((api_createBrandSession (cb_brandId body) now)
           \<lparr>api_cognitiveState :=
              \<lparr> analytical = (if truthy (cb_analytical body) then cb_analytical body
                              else JNum 0.5),
                intuitive = (if truthy (cb_intuitive body) then cb_intuitive body
                             else JNum 0.5),
                efficiency = (if truthy (cb_efficiency body) then cb_efficiency body
                              else JNum 0.7),
                lastUpdate = None,
                cs_context = (if truthy (cb_context body) then cb_context body
                              else JObj []) \<rparr>,
            api_lastUpdate := now\<rparr>)))"
proof (intro conjI impI)
  assume b: "cb_brandId body = JStr k"
  obtain s0 st1 evs where g: "getOrCreate st (JStr k) now = Inr (k, s0, st1)"
    and h: "handleCognitiveState st body now =
       (Ok200, evs,
        put_session st1 k
          (s0\<lparr>cognitiveState :=
               \<lparr> analytical = js_or (cb_analytical body) (JNum 0.7),
                 intuitive = js_or (cb_intuitive body) (JNum 0.7),
                 efficiency = js_or (cb_efficiency body) (JNum 0.75),
                 lastUpdate = Some now,
                 cs_context = js_or (cb_context body) (JObj []) \<rparr>\<rparr>))"
    using handleCognitiveState_JStr [OF b, of st now] by blast
  have same: "\<forall>s'. brandSessions st k = Some s' \<longrightarrow> s0 = s' \<and> st1 = st"
    using g by (auto simp: getOrCreate_JStr)
  show "\<exists>s0 st1.
         getOrCreate st (JStr k) now = Inr (k, s0, st1) \<and>
         (\<forall>s'. brandSessions st k = Some s' \<longrightarrow> s0 = s' \<and> st1 = st) \<and>
         fst (handleCognitiveState st body now) = Ok200 \<and>
         snd (snd (handleCognitiveState st body now)) =
           put_session st1 k
             (s0\<lparr>cognitiveState :=
                  \<lparr> analytical = (if truthy (cb_analytical body) then cb_analytical body
                                  else JNum 0.7),
                    intuitive = (if truthy (cb_intuitive body) then cb_intuitive body
                                 else JNum 0.7),
                    efficiency = (if truthy (cb_efficiency body) then cb_efficiency body
                                  else JNum 0.75),
                    lastUpdate = Some now,
                    cs_context = (if truthy (cb_context body) then cb_context body
                                  else JObj []) \<rparr>\<rparr>)"
    using g same unfolding h js_or_def by (intro exI [of _ s0] exI [of _ st1]) simp
next
  assume "truthy (cb_brandId body)"
  then show "api_cognitive_state body now =
        (Ok200,
         Some ((api_createBrandSession (cb_brandId body) now)
           \<lparr>api_cognitiveState :=
              \<lparr> analytical = (if truthy (cb_analytical body) then cb_analytical body
                              else JNum 0.5),
                intuitive = (if truthy (cb_intuitive body) then cb_intuitive body
                             else JNum 0.5),
                efficiency = (if truthy (cb_efficiency body) then cb_efficiency body
                              else JNum 0.7),
                lastUpdate = None,
                cs_context = (if truthy (cb_context body) then cb_context body
                              else JObj []) \<rparr>,
            api_lastUpdate := now\<rparr>))"
    by (simp add: api_cognitive_state_def Let_def js_or_def api_createBrandSession_def)
qed

theorem cognitive_state_fallbacks_witness:
  "(\<exists>s. brandSessions (snd (snd (handleCognitiveState initial
            \<lparr> cb_brandId = JStr ''demo'', cb_analytical = JNum 0.9, cb_intuitive = JUndefined,
              cb_efficiency = JNum 0, cb_context = JUndefined \<rparr> 4))) ''demo'' = Some s \<and>
        cognitiveState s =
          \<lparr> analytical = JNum 0.9, intuitive = JNum 0.7, efficiency = JNum 0.75,
            lastUpdate = Some 4, cs_context = JObj [] \<rparr>) \<and>
   (\<exists>s. api_cognitive_state
            \<lparr> cb_brandId = JStr ''demo'', cb_analytical = JNum 0.9, cb_intuitive = JUndefined,
              cb_efficiency = JNum 0, cb_context = JUndefined \<rparr> 4 = (Ok200, Some s) \<and>
        api_cognitiveState s =
          \<lparr> analytical = JNum 0.9, intuitive = JNum 0.5, efficiency = JNum 0.7,
            lastUpdate = None, cs_context = JObj [] \<rparr>)"
proof -
  let ?b = "\<lparr> cb_brandId = JStr ''demo'', cb_analytical = JNum 0.9, cb_intuitive = JUndefined,
              cb_efficiency = JNum 0, cb_context = JUndefined \<rparr>"
  note t = cognitive_state_fallbacks [of ?b "''demo''" initial 4]
  have k: "cb_brandId ?b = JStr ''demo''" and tr: "truthy (cb_brandId ?b)" by simp_all
  obtain s0 st1 where
    s: "snd (snd (handleCognitiveState initial ?b 4)) =
           put_session st1 ''demo''
             (s0\<lparr>cognitiveState :=
                  \<lparr> analytical = (if truthy (cb_analytical ?b) then cb_analytical ?b else JNum 0.7),
                    intuitive = (if truthy (cb_intuitive ?b) then cb_intuitive ?b else JNum 0.7),
                    efficiency = (if truthy (cb_efficiency ?b) then cb_efficiency ?b else JNum 0.75),
                    lastUpdate = Some 4,
                    cs_context = (if truthy (cb_context ?b) then cb_context ?b else JObj []) \<rparr>\<rparr>)"
    using t [THEN conjunct1, rule_format, OF k] by (elim exE conjE)
  have 1: "\<exists>s. brandSessions (snd (snd (handleCognitiveState initial ?b 4))) ''demo'' = Some s \<and>
        cognitiveState s =
          \<lparr> analytical = JNum 0.9, intuitive = JNum 0.7, efficiency = JNum 0.75,
            lastUpdate = Some 4, cs_context = JObj [] \<rparr>"
    unfolding s by (simp add: put_session_def)
  have 2: "\<exists>s. api_cognitive_state ?b 4 = (Ok200, Some s) \<and>
        api_cognitiveState s =
          \<lparr> analytical = JNum 0.9, intuitive = JNum 0.5, efficiency = JNum 0.7,
            lastUpdate = None, cs_context = JObj [] \<rparr>"
    using t [THEN conjunct2, rule_format, OF tr] by simp
  show ?thesis using 1 2 by (rule conjI)
qed

text \<open>
  The claim as first stated fails in the WebSocket server: after a call that stored a
  context and the numbers 0.9, 0.2, 0.4, a call that omits context, analytical and
  efficiency leaves the empty object and the numbers 0.7 and 0.75, not what the session
  held.
\<close>

theorem cognitive_state_fallbacks_counterexample:
  "cognitiveState (the (brandSessions
      (run (\<lambda>s. s) (\<lambda>n. replicate n (CHR ''u'')) initial
        [(CognitiveStatePost
            \<lparr> cb_brandId = JStr ''demo'', cb_analytical = JNum 0.9, cb_intuitive = JNum 0.2,
              cb_efficiency = JNum 0.4, cb_context = JObj [(''phase'', JStr ''review'')] \<rparr>, 1)])
      ''demo''))
   = \<lparr> analytical = JNum 0.9, intuitive = JNum 0.2, efficiency = JNum 0.4,
       lastUpdate = Some 1, cs_context = JObj [(''phase'', JStr ''review'')] \<rparr> \<and>
   cognitiveState (the (brandSessions
      (run (\<lambda>s. s) (\<lambda>n. replicate n (CHR ''u'')) initial
        [(CognitiveStatePost
            \<lparr> cb_brandId = JStr ''demo'', cb_analytical = JNum 0.9, cb_intuitive = JNum 0.2,
              cb_efficiency = JNum 0.4, cb_context = JObj [(''phase'', JStr ''review'')] \<rparr>, 1),
         (CognitiveStatePost
            \<lparr> cb_brandId = JStr ''demo'', cb_analytical = JUndefined, cb_intuitive = JNum 0.3,
              cb_efficiency = JUndefined, cb_context = JUndefined \<rparr>, 2)])
      ''demo''))
   = \<lparr> analytical = JNum 0.7, intuitive = JNum 0.3, efficiency = JNum 0.75,
       lastUpdate = Some 2, cs_context = JObj [] \<rparr>"
  by (simp add: eval_cog split_beta)
lemma zero_as_omitted:
  assumes "cb_brandId b' = cb_brandId b" and "cb_context b' = cb_context b"
    and "js_or (cb_analytical b') = js_or (cb_analytical b)"
    and "js_or (cb_intuitive b') = js_or (cb_intuitive b)"
    and "js_or (cb_efficiency b') = js_or (cb_efficiency b)"
  shows "handleCognitiveState st b now = handleCognitiveState st b' now"
    and "api_cognitive_state b now = api_cognitive_state b' now"
  unfolding handleCognitiveState_def api_cognitive_state_def assms
  by (rule refl)+

lemma js_or_zero_fun: "a = JNum 0 \<Longrightarrow> js_or JUndefined = js_or a"
  by (simp add: js_or_def fun_eq_iff)

text \<open>
  C9. In both routes a numeric field submitted as 0 takes the branch of an omitted
  field: the whole result of the call equals that of the same call with the field left
  out. No call ever stores the number 0 in \<open>analytical\<close>, \<open>intuitive\<close> or \<open>efficiency\<close>.
\<close>

theorem zero_takes_fallback:
  "(cb_analytical body = JNum 0 \<longrightarrow>
      handleCognitiveState st body now =
        handleCognitiveState st (body\<lparr>cb_analytical := JUndefined\<rparr>) now \<and>
      api_cognitive_state body now = api_cognitive_state (body\<lparr>cb_analytical := JUndefined\<rparr>) now) \<and>
   (cb_intuitive body = JNum 0 \<longrightarrow>
      handleCognitiveState st body now =
        handleCognitiveState st (body\<lparr>cb_intuitive := JUndefined\<rparr>) now \<and>
      api_cognitive_state body now = api_cognitive_state (body\<lparr>cb_intuitive := JUndefined\<rparr>) now) \<and>
   (cb_efficiency body = JNum 0 \<longrightarrow>
      handleCognitiveState st body now =
        handleCognitiveState st (body\<lparr>cb_efficiency := JUndefined\<rparr>) now \<and>
      api_cognitive_state body now = api_cognitive_state (body\<lparr>cb_efficiency := JUndefined\<rparr>) now) \<and>
   (cb_brandId body = JStr k \<longrightarrow>
      (\<exists>s. brandSessions (snd (snd (handleCognitiveState st body now))) k = Some s \<and>
           analytical (cognitiveState s) \<noteq> JNum 0 \<and>
           intuitive (cognitiveState s) \<noteq> JNum 0 \<and>
           efficiency (cognitiveState s) \<noteq> JNum 0)) \<and>
   (truthy (cb_brandId body) \<longrightarrow>
      (\<exists>s. api_cognitive_state body now = (Ok200, Some s) \<and>
           analytical (api_cognitiveState s) \<noteq> JNum 0 \<and>
           intuitive (api_cognitiveState s) \<noteq> JNum 0 \<and>
           efficiency (api_cognitiveState s) \<noteq> JNum 0))"
proof (intro conjI impI)
  assume a: "cb_analytical body = JNum 0"
  show "handleCognitiveState st body now =
        handleCognitiveState st (body\<lparr>cb_analytical := JUndefined\<rparr>) now"
    by (rule zero_as_omitted(1)) (simp_all add: js_or_zero_fun [OF a])
  show "api_cognitive_state body now = api_cognitive_state (body\<lparr>cb_analytical := JUndefined\<rparr>) now"
    by (rule zero_as_omitted(2)) (simp_all add: js_or_zero_fun [OF a])
next
  assume a: "cb_intuitive body = JNum 0"
  show "handleCognitiveState st body now =
        handleCognitiveState st (body\<lparr>cb_intuitive := JUndefined\<rparr>) now"
    by (rule zero_as_omitted(1)) (simp_all add: js_or_zero_fun [OF a])
  show "api_cognitive_state body now = api_cognitive_state (body\<lparr>cb_intuitive := JUndefined\<rparr>) now"
    by (rule zero_as_omitted(2)) (simp_all add: js_or_zero_fun [OF a])
next
  assume a: "cb_efficiency body = JNum 0"
  show "handleCognitiveState st body now =
        handleCognitiveState st (body\<lparr>cb_efficiency := JUndefined\<rparr>) now"
    by (rule zero_as_omitted(1)) (simp_all add: js_or_zero_fun [OF a])
  show "api_cognitive_state body now = api_cognitive_state (body\<lparr>cb_efficiency := JUndefined\<rparr>) now"
    by (rule zero_as_omitted(2)) (simp_all add: js_or_zero_fun [OF a])
next
  assume b: "cb_brandId body = JStr k"
  obtain s0 st1 evs where h: "handleCognitiveState st body now =
       (Ok200, evs,
        put_session st1 k
          (s0\<lparr>cognitiveState :=
               \<lparr> analytical = js_or (cb_analytical body) (JNum 0.7),
                 intuitive = js_or (cb_intuitive body) (JNum 0.7),
                 efficiency = js_or (cb_efficiency body) (JNum 0.75),
                 lastUpdate = Some now,
                 cs_context = js_or (cb_context body) (JObj []) \<rparr>\<rparr>))"
    using handleCognitiveState_JStr [OF b, of st now] by blast
  show "\<exists>s. brandSessions (snd (snd (handleCognitiveState st body now))) k = Some s \<and>
           analytical (cognitiveState s) \<noteq> JNum 0 \<and>
           intuitive (cognitiveState s) \<noteq> JNum 0 \<and>
           efficiency (cognitiveState s) \<noteq> JNum 0"
    unfolding h by (simp add: put_session_def js_or_not_zero)
next
  assume "truthy (cb_brandId body)"
  then show "\<exists>s. api_cognitive_state body now = (Ok200, Some s) \<and>
           analytical (api_cognitiveState s) \<noteq> JNum 0 \<and>
           intuitive (api_cognitiveState s) \<noteq> JNum 0 \<and>
           efficiency (api_cognitiveState s) \<noteq> JNum 0"
    by (simp add: api_cognitive_state_def Let_def api_createBrandSession_def js_or_not_zero)
qed

theorem zero_takes_fallback_witness:
  "handleCognitiveState initial
     \<lparr> cb_brandId = JStr ''demo'', cb_analytical = JNum 0, cb_intuitive = JNum 0,
       cb_efficiency = JNum 0, cb_context = JUndefined \<rparr> 4 =
   handleCognitiveState initial
     \<lparr> cb_brandId = JStr ''demo'', cb_analytical = JUndefined, cb_intuitive = JNum 0,
       cb_efficiency = JNum 0, cb_context = JUndefined \<rparr> 4 \<and>
   api_cognitive_state
     \<lparr> cb_brandId = JStr ''demo'', cb_analytical = JNum 0, cb_intuitive = JNum 0,
       cb_efficiency = JNum 0, cb_context = JUndefined \<rparr> 4 =
   api_cognitive_state
     \<lparr> cb_brandId = JStr ''demo'', cb_analytical = JNum 0, cb_intuitive = JNum 0,
       cb_efficiency = JUndefined, cb_context = JUndefined \<rparr> 4 \<and>
   (\<exists>s. brandSessions (snd (snd (handleCognitiveState initial
            \<lparr> cb_brandId = JStr ''demo'', cb_analytical = JNum 0, cb_intuitive = JNum 0,
              cb_efficiency = JNum 0, cb_context = JUndefined \<rparr> 4))) ''demo'' = Some s \<and>
        analytical (cognitiveState s) \<noteq> JNum 0 \<and> intuitive (cognitiveState s) \<noteq> JNum 0 \<and>
        efficiency (cognitiveState s) \<noteq> JNum 0) \<and>
   (\<exists>s. api_cognitive_state
            \<lparr> cb_brandId = JStr ''demo'', cb_analytical = JNum 0, cb_intuitive = JNum 0,
              cb_efficiency = JNum 0, cb_context = JUndefined \<rparr> 4 = (Ok200, Some s) \<and>
        analytical (api_cognitiveState s) \<noteq> JNum 0 \<and> intuitive (api_cognitiveState s) \<noteq> JNum 0 \<and>
        efficiency (api_cognitiveState s) \<noteq> JNum 0)"
proof -
  let ?b = "\<lparr> cb_brandId = JStr ''demo'', cb_analytical = JNum 0, cb_intuitive = JNum 0,
         cb_efficiency = JNum 0, cb_context = JUndefined \<rparr>"
  note t = zero_takes_fallback [of ?b initial 4 "''demo''"]
  have a: "cb_analytical ?b = JNum 0" and e: "cb_efficiency ?b = JNum 0"
    and k: "cb_brandId ?b = JStr ''demo''" and tr: "truthy (cb_brandId ?b)"
    by simp_all
  have 1: "handleCognitiveState initial ?b 4 =
           handleCognitiveState initial (?b\<lparr>cb_analytical := JUndefined\<rparr>) 4"
    using t [THEN conjunct1, rule_format, OF a] by (rule conjunct1)
  have 2: "api_cognitive_state ?b 4 = api_cognitive_state (?b\<lparr>cb_efficiency := JUndefined\<rparr>) 4"
    using t [THEN conjunct2, THEN conjunct2, THEN conjunct1, rule_format, OF e] by (rule conjunct2)
  note 3 = t [THEN conjunct2, THEN conjunct2, THEN conjunct2, THEN conjunct1, rule_format, OF k]
  note 4 = t [THEN conjunct2, THEN conjunct2, THEN conjunct2, THEN conjunct2, rule_format, OF tr]
  from 1 2 3 4 show ?thesis by (simp del: truthy.simps)
qed


section \<open>Broadcasts and the dialogue routes\<close>

lemma sendToClient_events:
  "fst (sendToClient st cid m) =
     (case map_of (clients st) cid of
        None \<Rightarrow> []
      | Some c \<Rightarrow>
          if readyState (ws c) = OPEN
          then (if send_throws (ws c) then [SendFailed cid] else [Sent cid m])
          else [])"
  by (simp add: sendToClient_def split: option.splits)

lemma broadcast_each_Cons:
  "fst (broadcast_each st ((cid, c) # rest) b m) =
     (if strict_eq (brandId c) b \<and> readyState (ws c) = OPEN
      then fst (sendToClient st cid m) else []) @ fst (broadcast_each st rest b m)"
proof -
  have "sendToClient st cid m = (fst (sendToClient st cid m), st)"
    using sendToClient_state [of st cid m] by (simp add: prod_eq_iff)
  then show ?thesis
    by (simp add: split_beta Let_def sendToClient_state)
qed

lemma broadcast_each_msg:
  "Sent cid m' \<in> set (fst (broadcast_each st cl b m)) \<Longrightarrow> m' = m"
proof (induction cl)
  case Nil
  then show ?case by simp
next
  case (Cons p cl)
  obtain cid0 c where p: "p = (cid0, c)" by (cases p)
  from Cons.prems have
    "Sent cid m' \<in> set (fst (sendToClient st cid0 m)) \<or>
     Sent cid m' \<in> set (fst (broadcast_each st cl b m))"
    unfolding p broadcast_each_Cons by (auto split: if_splits)
  then show ?case
  proof
    assume "Sent cid m' \<in> set (fst (sendToClient st cid0 m))"
    then show ?thesis
      by (auto simp: sendToClient_events split: option.splits if_splits)
  next
    assume "Sent cid m' \<in> set (fst (broadcast_each st cl b m))"
    then show ?thesis by (rule Cons.IH)
  qed
qed

lemma broadcast_each_set:
  assumes "\<forall>(cid, c) \<in> set cl. map_of (clients st) cid = Some c"
  shows "set (fst (broadcast_each st cl b m)) =
     {Sent cid m | cid c. (cid, c) \<in> set cl \<and> strict_eq (brandId c) b \<and>
        readyState (ws c) = OPEN \<and> \<not> send_throws (ws c)} \<union>
     {SendFailed cid | cid c. (cid, c) \<in> set cl \<and> strict_eq (brandId c) b \<and>
        readyState (ws c) = OPEN \<and> send_throws (ws c)}"
  using assms
proof (induction cl)
  case Nil
  show ?case by simp
next
  case (Cons p cl)
  obtain cid0 c0 where p: "p = (cid0, c0)" by (cases p)
  have look: "map_of (clients st) cid0 = Some c0" using Cons.prems p by simp
  have rest: "\<forall>(cid, c) \<in> set cl. map_of (clients st) cid = Some c" using Cons.prems by simp
  note ih = Cons.IH [OF rest]
  show ?case
    unfolding p broadcast_each_Cons set_append ih
    by (auto simp: sendToClient_events look)
qed

lemma broadcastToBrand_set:
  assumes "distinct (map fst (clients st))"
  shows "set (fst (broadcastToBrand st b m)) =
     {Sent cid m | cid c. map_of (clients st) cid = Some c \<and> strict_eq (brandId c) b \<and>
        readyState (ws c) = OPEN \<and> \<not> send_throws (ws c)} \<union>
     {SendFailed cid | cid c. map_of (clients st) cid = Some c \<and> strict_eq (brandId c) b \<and>
        readyState (ws c) = OPEN \<and> send_throws (ws c)}"
proof -
  have m: "((cid, c) \<in> set (clients st)) = (map_of (clients st) cid = Some c)" for cid c
    using assms by simp
  have "\<forall>(cid, c) \<in> set (clients st). map_of (clients st) cid = Some c"
    using m by auto
  then show ?thesis
    unfolding broadcastToBrand_def by (simp add: broadcast_each_set m)
qed


lemmas eval_ws =
  run_def initial_def onConnection_def handleJoinBrand_def setReadyState_def sendToClient_def
  getOrCreate_def sessions_get_def createBrandSession_def broadcastToBrand_def OPEN_def
  handleRefinementDialogue_def js_or_def Let_def split_beta

text \<open>
  C3, as amended. The serverless dialogue route, for a truthy \<open>brandId\<close>, builds a fresh
  session on every call, and when it answers the dialogue of that session holds exactly
  one entry: the new one, with the id drawn from \<open>uuidv4\<close>, the time of the call, and
  the speaker and message as submitted. (No earlier entry exists to be kept.) The
  WebSocket server keeps no dialogue log: its handler never changes the server state.
  When \<open>brandId\<close> or \<open>speaker\<close> cannot be turned into a string the handler answers with
  status 500 and sends nothing. Otherwise it answers with success and sends, to each
  connection subscribed to the brand with an open socket whose \<open>send\<close> does not raise,
  the dialogue message: speaker and message as submitted, the time of the call,
  \<open>messageType\<close> as submitted when truthy and \<open>question\<close> otherwise, and no id. A \<open>send\<close>
  that raises is logged, and nothing else is sent.
\<close>

theorem dialogue_routes:
  assumes "distinct (map fst (clients st))"
  shows
  "(truthy (db_brandId body) \<longrightarrow>
      (\<exists>s e. api_dialogue_route uuidv4 n body now = (Ok200, Some s) \<and>
         api_dialogue s = [e] \<and>
         de_id e = uuidv4 n \<and> de_timestamp e = now \<and>
         de_speaker e = db_speaker body \<and> de_message e = db_message body)) \<and>
   snd (snd (handleRefinementDialogue st body now)) = st \<and>
   (toString_raises (db_brandId body) \<or> toString_raises (db_speaker body) \<longrightarrow>
      handleRefinementDialogue st body now = (ServerError500, [], st)) \<and>
   (\<not> toString_raises (db_brandId body) \<and> \<not> toString_raises (db_speaker body) \<longrightarrow>
      fst (handleRefinementDialogue st body now) = Ok200 \<and>
      set (fst (snd (handleRefinementDialogue st body now))) =
        {Sent cid
           (DialogueMessage (db_brandId body)
              \<lparr> speaker = db_speaker body, message = db_message body,
                messageType = (if truthy (db_messageType body) then db_messageType body
                               else JStr ''question''),
                timestamp = now \<rparr>) | cid c.
           map_of (clients st) cid = Some c \<and> strict_eq (brandId c) (db_brandId body) \<and>
           readyState (ws c) = OPEN \<and> \<not> send_throws (ws c)} \<union>
        {SendFailed cid | cid c.
           map_of (clients st) cid = Some c \<and> strict_eq (brandId c) (db_brandId body) \<and>
           readyState (ws c) = OPEN \<and> send_throws (ws c)})"
proof (intro conjI impI)
  assume "truthy (db_brandId body)"
  then show "\<exists>s e. api_dialogue_route uuidv4 n body now = (Ok200, Some s) \<and>
         api_dialogue s = [e] \<and>
         de_id e = uuidv4 n \<and> de_timestamp e = now \<and>
         de_speaker e = db_speaker body \<and> de_message e = db_message body"
    by (simp add: api_dialogue_route_def api_createBrandSession_def Let_def)
next
  show "snd (snd (handleRefinementDialogue st body now)) = st"
    by (rule handleRefinementDialogue_state)
next
  assume "toString_raises (db_brandId body) \<or> toString_raises (db_speaker body)"
  then show "handleRefinementDialogue st body now = (ServerError500, [], st)"
    by (simp add: handleRefinementDialogue_def)
next
  assume a: "\<not> toString_raises (db_brandId body) \<and> \<not> toString_raises (db_speaker body)"
  then show "fst (handleRefinementDialogue st body now) = Ok200"
    by (simp add: handleRefinementDialogue_def split_beta)
  have "fst (snd (handleRefinementDialogue st body now)) =
      fst (broadcastToBrand st (db_brandId body)
        (DialogueMessage (db_brandId body)
              \<lparr> speaker = db_speaker body, message = db_message body,
                messageType = (if truthy (db_messageType body) then db_messageType body
                               else JStr ''question''),
                timestamp = now \<rparr>))"
    using a by (simp add: handleRefinementDialogue_def split_beta js_or_def)
  then show "set (fst (snd (handleRefinementDialogue st body now))) =
        {Sent cid
           (DialogueMessage (db_brandId body)
              \<lparr> speaker = db_speaker body, message = db_message body,
                messageType = (if truthy (db_messageType body) then db_messageType body
                               else JStr ''question''),
                timestamp = now \<rparr>) | cid c.
           map_of (clients st) cid = Some c \<and> strict_eq (brandId c) (db_brandId body) \<and>
           readyState (ws c) = OPEN \<and> \<not> send_throws (ws c)} \<union>
        {SendFailed cid | cid c.
           map_of (clients st) cid = Some c \<and> strict_eq (brandId c) (db_brandId body) \<and>
           readyState (ws c) = OPEN \<and> send_throws (ws c)}"
    by (simp only: broadcastToBrand_set [OF assms])
qed

theorem dialogue_routes_witness:
  "Sent ''c'' (DialogueMessage (JStr ''demo'')
          \<lparr> speaker = JStr ''ai'', message = JStr ''why?'', messageType = JStr ''question'',
            timestamp = 3 \<rparr>)
     \<in> set (fst (snd (handleRefinementDialogue
       (run (\<lambda>s. s) (\<lambda>n. CHR ''c'' # replicate n (CHR ''1'')) initial
          [(Connection \<lparr> readyState = 1, send_throws = False \<rparr>, 1),
           (JoinBrand ''c'' (JStr ''demo''), 2)])
       \<lparr> db_brandId = JStr ''demo'', db_speaker = JStr ''ai'', db_message = JStr ''why?'',
         db_messageType = JUndefined \<rparr> 3))) \<and>
   handleRefinementDialogue
       (run (\<lambda>s. s) (\<lambda>n. CHR ''c'' # replicate n (CHR ''1'')) initial
          [(Connection \<lparr> readyState = 1, send_throws = False \<rparr>, 1),
           (JoinBrand ''c'' (JStr ''demo''), 2)])
       \<lparr> db_brandId = JStr ''demo'', db_speaker = JObj [(''toString'', JNum 1)],
         db_message = JStr ''why?'', db_messageType = JUndefined \<rparr> 3
     = (ServerError500, [],
        run (\<lambda>s. s) (\<lambda>n. CHR ''c'' # replicate n (CHR ''1'')) initial
          [(Connection \<lparr> readyState = 1, send_throws = False \<rparr>, 1),
           (JoinBrand ''c'' (JStr ''demo''), 2)]) \<and>
   (\<exists>s e. api_dialogue_route (\<lambda>n. CHR ''c'' # replicate n (CHR ''1'')) 0
            \<lparr> db_brandId = JStr ''demo'', db_speaker = JStr ''ai'', db_message = JStr ''why?'',
              db_messageType = JUndefined \<rparr> 3 = (Ok200, Some s) \<and>
          api_dialogue s = [e] \<and> de_id e = ''c'' \<and> de_timestamp e = 3 \<and>
          de_speaker e = JStr ''ai'' \<and> de_message e = JStr ''why?'')"
proof -
  let ?G = "\<lambda>n. CHR ''c'' # replicate n (CHR ''1'')"
  let ?B = "\<lparr> db_brandId = JStr ''demo'', db_speaker = JStr ''ai'', db_message = JStr ''why?'',
         db_messageType = JUndefined \<rparr>"
  let ?B' = "\<lparr> db_brandId = JStr ''demo'', db_speaker = JObj [(''toString'', JNum 1)],
         db_message = JStr ''why?'', db_messageType = JUndefined \<rparr>"
  let ?c = "\<lparr> client_id = ''c'', ws = \<lparr> readyState = 1, send_throws = False \<rparr>,
             connectedAt = 1, brandId = JStr ''demo'' \<rparr>"
  define ST where "ST = run (\<lambda>s. s) ?G initial
          [(Connection \<lparr> readyState = 1, send_throws = False \<rparr>, 1),
           (JoinBrand ''c'' (JStr ''demo''), 2)]"
  have cl: "clients ST = [(''c'', ?c)]"
    unfolding ST_def by (simp add: eval_ws)
  have d: "distinct (map fst (clients ST))" by (simp add: cl)
  note t = dialogue_routes [OF d, of ?B ?G 0 3]
  note t' = dialogue_routes [OF d, of ?B' ?G 0 3]
  have nr: "\<not> toString_raises (db_brandId ?B) \<and> \<not> toString_raises (db_speaker ?B)" by simp
  have r: "toString_raises (db_brandId ?B') \<or> toString_raises (db_speaker ?B')" by simp
  have tr: "truthy (db_brandId ?B)" by simp
  have "set (fst (snd (handleRefinementDialogue ST ?B 3))) =
        {Sent cid
           (DialogueMessage (db_brandId ?B)
              \<lparr> speaker = db_speaker ?B, message = db_message ?B,
                messageType = (if truthy (db_messageType ?B) then db_messageType ?B
                               else JStr ''question''),
                timestamp = 3 \<rparr>) | cid c.
           map_of (clients ST) cid = Some c \<and> strict_eq (brandId c) (db_brandId ?B) \<and>
           readyState (ws c) = OPEN \<and> \<not> send_throws (ws c)} \<union>
        {SendFailed cid | cid c.
           map_of (clients ST) cid = Some c \<and> strict_eq (brandId c) (db_brandId ?B) \<and>
           readyState (ws c) = OPEN \<and> send_throws (ws c)}"
    using t [THEN conjunct2, THEN conjunct2, THEN conjunct2, rule_format, OF nr]
    by (rule conjunct2)
  moreover have "map_of (clients ST) ''c'' = Some ?c \<and> strict_eq (brandId ?c) (db_brandId ?B) \<and>
           readyState (ws ?c) = OPEN \<and> \<not> send_throws (ws ?c)"
    by (simp add: cl OPEN_def)
  ultimately have 1: "Sent ''c'' (DialogueMessage (JStr ''demo'')
          \<lparr> speaker = JStr ''ai'', message = JStr ''why?'', messageType = JStr ''question'',
            timestamp = 3 \<rparr>) \<in> set (fst (snd (handleRefinementDialogue ST ?B 3)))"
    by (simp del: set_map)
  have 2: "handleRefinementDialogue ST ?B' 3 = (ServerError500, [], ST)"
    using t' [THEN conjunct2, THEN conjunct2, THEN conjunct1, rule_format, OF r] .
  have 3: "\<exists>s e. api_dialogue_route ?G 0 ?B 3 = (Ok200, Some s) \<and>
          api_dialogue s = [e] \<and> de_id e = ''c'' \<and> de_timestamp e = 3 \<and>
          de_speaker e = JStr ''ai'' \<and> de_message e = JStr ''why?''"
    using t [THEN conjunct1, rule_format, OF tr] by simp
  show ?thesis
    using 1 2 3 unfolding ST_def by simp
qed

text \<open>
  The claim as first stated fails in both places: the server's handler leaves a state
  with a stored session exactly as it was (nothing is appended anywhere), and the
  serverless route stores an omitted \<open>messageType\<close> as \<open>undefined\<close>.
\<close>

theorem dialogue_routes_counterexample:
  "snd (snd (handleRefinementDialogue
       (run (\<lambda>s. s) (\<lambda>n. CHR ''c'' # replicate n (CHR ''1'')) initial
          [(Connection \<lparr> readyState = 1, send_throws = False \<rparr>, 1),
           (JoinBrand ''c'' (JStr ''demo''), 2)])
       \<lparr> db_brandId = JStr ''demo'', db_speaker = JStr ''ai'', db_message = JStr ''why?'',
         db_messageType = JUndefined \<rparr> 3))
     = run (\<lambda>s. s) (\<lambda>n. CHR ''c'' # replicate n (CHR ''1'')) initial
          [(Connection \<lparr> readyState = 1, send_throws = False \<rparr>, 1),
           (JoinBrand ''c'' (JStr ''demo''), 2)] \<and>
   map de_messageType
     (api_dialogue (the (snd (api_dialogue_route (\<lambda>n. CHR ''c'' # replicate n (CHR ''1'')) 0
        \<lparr> db_brandId = JStr ''demo'', db_speaker = JStr ''ai'', db_message = JStr ''why?'',
          db_messageType = JUndefined \<rparr> 3))))
     = [JUndefined]"
  by (simp add: handleRefinementDialogue_state api_dialogue_route_def
      api_createBrandSession_def Let_def)


lemma getOrCreate_clients:
  "getOrCreate st b now = Inr (k, s, st1) \<Longrightarrow> clients st1 = clients st"
  using getOrCreate_Inr [of st b now k s st1]
  by (cases "brandSessions st k") (auto simp: put_session_def)

lemma handleWorkshopData_clients:
  "clients (snd (snd (handleWorkshopData lc uuidv4 st body now))) = clients st"
  unfolding handleWorkshopData_state
  by (auto simp: put_session_def split_beta Let_def dest: getOrCreate_clients
      split: sum.splits option.splits)

lemma handleCognitiveState_clients:
  "clients (snd (snd (handleCognitiveState st body now))) = clients st"
  by (auto simp: handleCognitiveState_def put_session_def split_beta Let_def
      broadcastToBrand_state dest: getOrCreate_clients split: sum.splits)

lemma step_clients_distinct:
  assumes "distinct (map fst (clients st))"
  shows "distinct (map fst (clients (step lc uuidv4 st (req, now))))"
proof (cases req)
  case (Connection sock)
  then show ?thesis using assms
    by (simp add: onConnection_def Let_def split_beta sendToClient_state distinct_update)
next
  case (Close c)
  then show ?thesis using assms by (simp add: onClose_def distinct_delete)
next
  case (ReadyState c r)
  then show ?thesis using assms
    by (simp add: setReadyState_def distinct_update split: option.splits)
next
  case (JoinBrand c b)
  then show ?thesis using assms
    by (auto simp: handleJoinBrand_def Let_def split_beta sendToClient_state distinct_update
        dest!: getOrCreate_clients split: option.splits sum.splits)
next
  case (WorkshopProcess body)
  then show ?thesis using assms by (simp add: handleWorkshopData_clients)
next
  case (CognitiveStatePost body)
  then show ?thesis using assms by (simp add: handleCognitiveState_clients)
next
  case (RefinementDialoguePost body)
  then show ?thesis using assms
    by (simp add: handleRefinementDialogue_state)
next
  case (BrandStateGet k)
  then show ?thesis using assms
    by (auto simp: getBrandState_def dest: getOrCreate_clients split: sum.splits)
qed

text \<open>
  The keys of \<open>clients\<close> are distinct in every state the server reaches, as the keys of a
  Map are.
\<close>

lemma run_clients_distinct:
  "distinct (map fst (clients st)) \<Longrightarrow> distinct (map fst (clients (run lc uuidv4 st reqs)))"
proof (induction reqs arbitrary: st)
  case Nil
  then show ?case by (simp add: run_def)
next
  case (Cons r reqs)
  obtain req now where r: "r = (req, now)" by (cases r)
  have "distinct (map fst (clients (step lc uuidv4 st r)))"
    using step_clients_distinct [OF Cons.prems] r by simp
  then show ?case using Cons.IH by (simp add: run_def)
qed

lemma reachable_clients_distinct:
  "distinct (map fst (clients (run lc uuidv4 initial reqs)))"
  by (rule run_clients_distinct) (simp add: initial_def)

text \<open>
  C4, as amended. A broadcast changes nothing in the server state: every connection,
  also one whose \<open>send\<close> raised, is still registered afterwards. Each connection that is
  subscribed to the brand with an open socket is served on its own: it gets the message
  when its \<open>send\<close> does not raise, and a logged failure when it does, whatever happens
  to the other connections. (The keys of \<open>clients\<close> are distinct in every state the
  server reaches, see \<open>reachable_clients_distinct\<close>.)
\<close>

theorem publish_failure_isolated:
  assumes "distinct (map fst (clients st))"
  shows "snd (broadcastToBrand st b m) = st \<and>
    (\<forall>cid c. map_of (clients st) cid = Some c \<and> strict_eq (brandId c) b \<and>
        readyState (ws c) = OPEN \<longrightarrow>
        map_of (clients (snd (broadcastToBrand st b m))) cid = Some c \<and>
        (if send_throws (ws c)
         then SendFailed cid \<in> set (fst (broadcastToBrand st b m)) \<and>
              Sent cid m \<notin> set (fst (broadcastToBrand st b m))
         else Sent cid m \<in> set (fst (broadcastToBrand st b m)) \<and>
              SendFailed cid \<notin> set (fst (broadcastToBrand st b m))))"
  unfolding broadcastToBrand_set [OF assms] broadcastToBrand_state
  by auto

theorem publish_failure_isolated_witness:
  "fst (broadcastToBrand
      (run (\<lambda>s. s) (\<lambda>n. CHR ''c'' # replicate n (CHR ''1'')) initial
         [(Connection \<lparr> readyState = 1, send_throws = True \<rparr>, 1),
          (Connection \<lparr> readyState = 1, send_throws = False \<rparr>, 2),
          (JoinBrand ''c'' (JStr ''brandA''), 3),
          (JoinBrand ''c1'' (JStr ''brandA''), 4)])
      (JStr ''brandA'') (Welcome ''m''))
    = [SendFailed ''c'', Sent ''c1'' (Welcome ''m'')] \<and>
   SendFailed ''c'' \<in> set (fst (broadcastToBrand
      (run (\<lambda>s. s) (\<lambda>n. CHR ''c'' # replicate n (CHR ''1'')) initial
         [(Connection \<lparr> readyState = 1, send_throws = True \<rparr>, 1),
          (Connection \<lparr> readyState = 1, send_throws = False \<rparr>, 2),
          (JoinBrand ''c'' (JStr ''brandA''), 3),
          (JoinBrand ''c1'' (JStr ''brandA''), 4)])
      (JStr ''brandA'') (Welcome ''m''))) \<and>
   Sent ''c1'' (Welcome ''m'') \<in> set (fst (broadcastToBrand
      (run (\<lambda>s. s) (\<lambda>n. CHR ''c'' # replicate n (CHR ''1'')) initial
         [(Connection \<lparr> readyState = 1, send_throws = True \<rparr>, 1),
          (Connection \<lparr> readyState = 1, send_throws = False \<rparr>, 2),
          (JoinBrand ''c'' (JStr ''brandA''), 3),
          (JoinBrand ''c1'' (JStr ''brandA''), 4)])
      (JStr ''brandA'') (Welcome ''m'')))"
proof -
  let ?G = "\<lambda>n. CHR ''c'' # replicate n (CHR ''1'')"
  define ST where "ST = run (\<lambda>s. s) ?G initial
         [(Connection \<lparr> readyState = 1, send_throws = True \<rparr>, 1),
          (Connection \<lparr> readyState = 1, send_throws = False \<rparr>, 2),
          (JoinBrand ''c'' (JStr ''brandA''), 3),
          (JoinBrand ''c1'' (JStr ''brandA''), 4)]"
  have cl: "clients ST =
      [(''c'', \<lparr> client_id = ''c'', ws = \<lparr> readyState = 1, send_throws = True \<rparr>,
               connectedAt = 1, brandId = JStr ''brandA'' \<rparr>),
       (''c1'', \<lparr> client_id = ''c1'', ws = \<lparr> readyState = 1, send_throws = False \<rparr>,
                connectedAt = 2, brandId = JStr ''brandA'' \<rparr>)]"
    unfolding ST_def by (simp add: eval_ws)
  have d: "distinct (map fst (clients ST))" by (simp add: cl)
  note t = publish_failure_isolated [OF d, of "JStr ''brandA''" "Welcome ''m''", THEN conjunct2]
  have 1: "SendFailed ''c'' \<in> set (fst (broadcastToBrand ST (JStr ''brandA'') (Welcome ''m'')))"
    using t [rule_format, of "''c''"
        "\<lparr> client_id = ''c'', ws = \<lparr> readyState = 1, send_throws = True \<rparr>,
               connectedAt = 1, brandId = JStr ''brandA'' \<rparr>"]
    by (simp add: cl OPEN_def)
  have 2: "Sent ''c1'' (Welcome ''m'') \<in> set (fst (broadcastToBrand ST (JStr ''brandA'') (Welcome ''m'')))"
    using t [rule_format, of "''c1''"
        "\<lparr> client_id = ''c1'', ws = \<lparr> readyState = 1, send_throws = False \<rparr>,
                connectedAt = 2, brandId = JStr ''brandA'' \<rparr>"]
    by (simp add: cl OPEN_def)
  have 3: "fst (broadcastToBrand ST (JStr ''brandA'') (Welcome ''m''))
            = [SendFailed ''c'', Sent ''c1'' (Welcome ''m'')]"
    by (simp add: broadcastToBrand_def cl sendToClient_def OPEN_def)
  show ?thesis using 1 2 3 unfolding ST_def by simp
qed

text \<open>
  The claim as first stated fails in its second half: with two subscribers, the first
  of which fails, the second gets the message, and both are still registered after the
  broadcast.
\<close>

theorem publish_failure_isolated_counterexample:
  "fst (broadcastToBrand
      (run (\<lambda>s. s) (\<lambda>n. CHR ''c'' # replicate n (CHR ''1'')) initial
         [(Connection \<lparr> readyState = 1, send_throws = True \<rparr>, 1),
          (Connection \<lparr> readyState = 1, send_throws = False \<rparr>, 2),
          (JoinBrand ''c'' (JStr ''brandA''), 3),
          (JoinBrand ''c1'' (JStr ''brandA''), 4)])
      (JStr ''brandA'') (Welcome ''m''))
    = [SendFailed ''c'', Sent ''c1'' (Welcome ''m'')] \<and>
   map fst (clients (snd (broadcastToBrand
      (run (\<lambda>s. s) (\<lambda>n. CHR ''c'' # replicate n (CHR ''1'')) initial
         [(Connection \<lparr> readyState = 1, send_throws = True \<rparr>, 1),
          (Connection \<lparr> readyState = 1, send_throws = False \<rparr>, 2),
          (JoinBrand ''c'' (JStr ''brandA''), 3),
          (JoinBrand ''c1'' (JStr ''brandA''), 4)])
      (JStr ''brandA'') (Welcome ''m'')))) = [''c'', ''c1'']"
  by (simp add: eval_ws broadcastToBrand_state)

text \<open>
  C8, as amended. After connection \<open>c1\<close> has joined brand \<open>a\<close>: a broadcast to \<open>a\<close>
  delivers the message to \<open>c1\<close> provided its socket is open and its \<open>send\<close> does not
  raise; a broadcast to any other brand delivers nothing to \<open>c1\<close>; and in general a
  broadcast delivers its message to exactly the connections that are subscribed to the
  brand, have an open socket and whose \<open>send\<close> does not raise.
\<close>

theorem publish_reaches_open_subscribers:
  assumes "distinct (map fst (clients st))"
    and "map_of (clients st) c1 = Some c"
    and "st1 = snd (snd (handleJoinBrand st c1 (JStr a) now))"
  shows "(readyState (ws c) = OPEN \<and> \<not> send_throws (ws c) \<longrightarrow>
            Sent c1 m \<in> set (fst (broadcastToBrand st1 (JStr a) m))) \<and>
         (b \<noteq> JStr a \<longrightarrow> (\<forall>m'. Sent c1 m' \<notin> set (fst (broadcastToBrand st1 b m)))) \<and>
         (\<forall>cid m'. Sent cid m' \<in> set (fst (broadcastToBrand st1 b m)) \<longleftrightarrow>
            m' = m \<and> (\<exists>c'. map_of (clients st1) cid = Some c' \<and> strict_eq (brandId c') b \<and>
               readyState (ws c') = OPEN \<and> \<not> send_throws (ws c')))"
proof -
  have cl: "clients st1 = AList.update c1 (c\<lparr>brandId := JStr a\<rparr>) (clients st)"
    unfolding assms(3)
    by (cases "brandSessions st a")
       (simp_all add: handleJoinBrand_def assms(2) Let_def getOrCreate_JStr
          createBrandSession_def split_beta sendToClient_state)
  have d: "distinct (map fst (clients st1))"
    unfolding cl using assms(1) by (rule distinct_update)
  have look: "map_of (clients st1) c1 = Some (c\<lparr>brandId := JStr a\<rparr>)"
    unfolding cl by (simp add: update_conv')
  show ?thesis
    unfolding broadcastToBrand_set [OF d]
    using look by (cases b) auto
qed


theorem publish_reaches_open_subscribers_witness:
  "Sent ''c'' (Welcome ''m'') \<in> set (fst (broadcastToBrand
      (run (\<lambda>s. s) (\<lambda>n. CHR ''c'' # replicate n (CHR ''1'')) initial
         [(Connection \<lparr> readyState = 1, send_throws = False \<rparr>, 1),
          (JoinBrand ''c'' (JStr ''brandA''), 2)])
      (JStr ''brandA'') (Welcome ''m''))) \<and>
   Sent ''c'' (Welcome ''m'') \<notin> set (fst (broadcastToBrand
      (run (\<lambda>s. s) (\<lambda>n. CHR ''c'' # replicate n (CHR ''1'')) initial
         [(Connection \<lparr> readyState = 1, send_throws = False \<rparr>, 1),
          (JoinBrand ''c'' (JStr ''brandA''), 2)])
      (JStr ''brandB'') (Welcome ''m'')))"
proof -
  let ?G = "\<lambda>n. CHR ''c'' # replicate n (CHR ''1'')"
  let ?c = "\<lparr> client_id = ''c'', ws = \<lparr> readyState = 1, send_throws = False \<rparr>,
             connectedAt = 1, brandId = JNull \<rparr>"
  define ST where "ST = run (\<lambda>s. s) ?G initial [(Connection \<lparr> readyState = 1, send_throws = False \<rparr>, 1)]"
  define ST1 where "ST1 = snd (snd (handleJoinBrand ST ''c'' (JStr ''brandA'') 2))"
  have cl: "clients ST = [(''c'', ?c)]"
    unfolding ST_def by (simp add: eval_ws)
  have d: "distinct (map fst (clients ST))" by (simp add: cl)
  have look: "map_of (clients ST) ''c'' = Some ?c" by (simp add: cl)
  have r: "run (\<lambda>s. s) ?G initial
         [(Connection \<lparr> readyState = 1, send_throws = False \<rparr>, 1),
          (JoinBrand ''c'' (JStr ''brandA''), 2)] = ST1"
    by (simp add: ST1_def ST_def run_def)
  note t = publish_reaches_open_subscribers [OF d look ST1_def,
      of "Welcome ''m''" "JStr ''brandB''"]
  have 1: "Sent ''c'' (Welcome ''m'') \<in> set (fst (broadcastToBrand ST1 (JStr ''brandA'') (Welcome ''m'')))"
    using t [THEN conjunct1] by (simp add: OPEN_def)
  have 2: "Sent ''c'' (Welcome ''m'') \<notin> set (fst (broadcastToBrand ST1 (JStr ''brandB'') (Welcome ''m'')))"
    using t [THEN conjunct2, THEN conjunct1] by simp
  show ?thesis unfolding r using 1 2 by simp
qed

text \<open>
  The claim as first stated fails for a subscriber whose socket is no longer open: \<open>c\<close>
  has joined \<open>brandA\<close>, its socket is closing (its close event has not come yet), and a
  broadcast to \<open>brandA\<close> delivers nothing.
\<close>

theorem publish_reaches_open_subscribers_counterexample:
  "map_of (clients
      (run (\<lambda>s. s) (\<lambda>n. CHR ''c'' # replicate n (CHR ''1'')) initial
         [(Connection \<lparr> readyState = 1, send_throws = False \<rparr>, 1),
          (JoinBrand ''c'' (JStr ''brandA''), 2),
          (ReadyState ''c'' 2, 3)])) ''c''
    = Some \<lparr> client_id = ''c'', ws = \<lparr> readyState = 2, send_throws = False \<rparr>,
             connectedAt = 1, brandId = JStr ''brandA'' \<rparr> \<and>
   fst (broadcastToBrand
      (run (\<lambda>s. s) (\<lambda>n. CHR ''c'' # replicate n (CHR ''1'')) initial
         [(Connection \<lparr> readyState = 1, send_throws = False \<rparr>, 1),
          (JoinBrand ''c'' (JStr ''brandA''), 2),
          (ReadyState ''c'' 2, 3)])
      (JStr ''brandA'') (Welcome ''m'')) = []"
  by (simp add: eval_ws)


end
